theory Spec2Isabelle
  imports Complex_Main
begin

section \<open>Python, numpy and torch conventions used by replay\_buffer.py\<close>

text \<open>
  Exceptions are values. A float is the rational number it stands for. Where the
  rounding of float arithmetic decides a result (the split points of the partitioner), the
  arithmetic is a parameter of the model, with float64 arithmetic as one instance; prices
  and weights are only copied and divided, and are computed with exactly.
\<close>

datatype error =
  AssertionError | ZeroDivisionError | IndexError | ValueError | RuntimeError | AttributeError

text \<open>
  \<open>py_index n i\<close> is the position that the index \<open>i\<close> selects in a sequence of
  length \<open>n\<close>: negative indices count from the end, anything outside \<open>[-n, n)\<close> raises.
\<close>

definition py_index :: "nat \<Rightarrow> int \<Rightarrow> nat option" where
  "py_index n i =
     (if 0 \<le> i \<and> i < int n then Some (nat i)
      else if - int n \<le> i \<and> i < 0 then Some (nat (int n + i))
      else None)"

text \<open>
  A bound of a slice \<open>xs[i:j]\<close> never raises: a negative bound counts from the end and
  every bound is clamped to \<open>[0, n]\<close>.
\<close>

definition slice_bound :: "nat \<Rightarrow> int \<Rightarrow> nat" where
  "slice_bound n i = (if i < 0 then nat (int n + i) else min n (nat i))"

definition py_slice :: "'a list \<Rightarrow> int \<Rightarrow> int \<Rightarrow> 'a list" where
  "py_slice xs i j =
     (let a = slice_bound (length xs) i; b = slice_bound (length xs) j
      in take (b - a) (drop a xs))"

text \<open>\<open>astype(int)\<close> on a float array truncates towards zero.\<close>

definition astype_int :: "rat \<Rightarrow> int" where
  "astype_int x = (if 0 \<le> x then \<lfloor>x\<rfloor> else \<lceil>x\<rceil>)"

text \<open>\<open>np.arange(n)\<close>; empty for \<open>n \<le> 0\<close>.\<close>

definition np_arange :: "int \<Rightarrow> int list" where
  "np_arange n = map int [0..<nat n]"

text \<open>
  \<open>np.split(ary, [a, b])\<close> returns \<open>ary[0:a]\<close>, \<open>ary[a:b]\<close>, \<open>ary[b:len(ary)]\<close>,
  each an ordinary slice.
\<close>

definition np_split :: "'a list \<Rightarrow> int \<Rightarrow> int \<Rightarrow> 'a list \<times> 'a list \<times> 'a list" where
  "np_split ary a b = (py_slice ary 0 a, py_slice ary a b, py_slice ary b (int (length ary)))"

section \<open>The partitioner: \_divide\_data\<close>

text \<open>
  The function has no \<open>raise\<close> and none of its numpy calls can fail, so every result is
  \<open>Inr\<close>. The triple is returned in the order (train, test, validation).
\<close>

definition divide_data ::
  "int \<Rightarrow> int \<Rightarrow> rat \<Rightarrow> rat \<Rightarrow> bool \<Rightarrow> error + (int list \<times> int list \<times> int list)" where
  "divide_data period_num window_size test_portion val_portion portion_reversed =
     (let train_portion = 1 - test_portion - val_portion;
          indices = np_arange period_num;
          (train_idx, test_idx, val_idx) =
            (if portion_reversed then
               let split_idx0 = astype_int (val_portion * of_int period_num);
                   split_idx1 = astype_int ((val_portion + test_portion) * of_int period_num);
                   (val_idx, test_idx, train_idx) = np_split indices split_idx0 split_idx1
               in (train_idx, test_idx, val_idx)
             else
               let split_idx0 = astype_int (train_portion * of_int period_num);
                   split_idx1 = astype_int ((train_portion + test_portion) * of_int period_num)
               in np_split indices split_idx0 split_idx1)
      in Inr (py_slice train_idx 0 (- (window_size + 1)),
              py_slice test_idx 0 (- (window_size + 1)),
              py_slice val_idx 0 (- (window_size + 1))))"

text \<open>
  \<open>divide_data\<close> above computes the fractions and their products with \<open>period_num\<close>
  exactly. The source computes them in float64, and a rounded product can fall on the other
  side of an integer. \<open>divide_data_with\<close> is the same function over a float arithmetic
  given as a parameter: subtraction, addition and multiplication, each with its rounding,
  and the conversion of the integer \<open>period_num\<close> that numpy applies before it
  multiplies. \<open>split_products\<close> are the two products that \<open>astype(int)\<close> then truncates.
\<close>

record float_arith =
  fsub :: "rat \<Rightarrow> rat \<Rightarrow> rat"
  fadd :: "rat \<Rightarrow> rat \<Rightarrow> rat"
  fmul :: "rat \<Rightarrow> rat \<Rightarrow> rat"
  fint :: "int \<Rightarrow> rat"

definition split_products :: "float_arith \<Rightarrow> int \<Rightarrow> rat \<Rightarrow> rat \<Rightarrow> bool \<Rightarrow> rat \<times> rat" where
  "split_products ops period_num test_portion val_portion portion_reversed =
     (let train_portion = fsub ops (fsub ops 1 test_portion) val_portion
      in if portion_reversed
         then (fmul ops val_portion (fint ops period_num),
               fmul ops (fadd ops val_portion test_portion) (fint ops period_num))
         else (fmul ops train_portion (fint ops period_num),
               fmul ops (fadd ops train_portion test_portion) (fint ops period_num)))"

definition divide_data_with ::
  "float_arith \<Rightarrow> int \<Rightarrow> int \<Rightarrow> rat \<Rightarrow> rat \<Rightarrow> bool \<Rightarrow> error + (int list \<times> int list \<times> int list)" where
  "divide_data_with ops period_num window_size test_portion val_portion portion_reversed =
     (let indices = np_arange period_num;
          (x, y) = split_products ops period_num test_portion val_portion portion_reversed;
          (first, second, third) = np_split indices (astype_int x) (astype_int y);
          (train_idx, test_idx, val_idx) =
            (if portion_reversed then (third, second, first) else (first, second, third))
      in Inr (py_slice train_idx 0 (- (window_size + 1)),
              py_slice test_idx 0 (- (window_size + 1)),
              py_slice val_idx 0 (- (window_size + 1))))"

text \<open>Exact arithmetic, the instance that \<open>divide_data\<close> is.\<close>

definition exact_arith :: float_arith where
  "exact_arith = \<lparr>fsub = (\<lambda>x y. x - y), fadd = (\<lambda>x y. x + y), fmul = (\<lambda>x y. x * y),
                   fint = of_int\<rparr>"

text \<open>
  float64 arithmetic: every result is rounded to the nearest number with a mantissa of 53
  bits, a tie to the one with an even mantissa; below \<open>2^-1022\<close> the spacing stays
  \<open>2^-1074\<close>. Overflow to infinity is not represented. \<open>binade x\<close> is the exponent \<open>e\<close>
  with \<open>2^e \<le> |x| < 2^(e+1)\<close>.
\<close>

function bit_length :: "int \<Rightarrow> int" where
  "bit_length n = (if n \<le> 0 then 0 else 1 + bit_length (n div 2))"
  by pat_completeness auto
termination
  by (relation "measure nat") auto

definition pow2 :: "int \<Rightarrow> rat" where
  "pow2 k = (if 0 \<le> k then 2 ^ nat k else 1 / 2 ^ nat (- k))"

definition binade :: "rat \<Rightarrow> int" where
  "binade x =
     (let (p, q) = quotient_of (abs x);
          d = bit_length p - bit_length q
      in if pow2 d \<le> abs x then d else d - 1)"

definition round_half_even :: "rat \<Rightarrow> int" where
  "round_half_even m =
     (let r = \<lfloor>m\<rfloor>; rest = m - of_int r
      in if rest < 1 / 2 then r
         else if 1 / 2 < rest then r + 1
         else if even r then r else r + 1)"

definition round_double :: "rat \<Rightarrow> rat" where
  "round_double x =
     (if x = 0 then 0
      else let u = pow2 (max (binade x) (- 1022) - 52)
           in of_int (round_half_even (x / u)) * u)"

definition double_arith :: float_arith where
  "double_arith = \<lparr>fsub = (\<lambda>x y. round_double (x - y)), fadd = (\<lambda>x y. round_double (x + y)),
                    fmul = (\<lambda>x y. round_double (x * y)), fint = (\<lambda>n. round_double (of_int n))\<rparr>"

text \<open>The floats that the literals \<open>0.1\<close> and \<open>0.2\<close> denote.\<close>

definition tenth :: rat where
  "tenth = round_double (1 / 10)"

definition fifth :: rat where
  "fifth = round_double (2 / 10)"

text \<open>
  The two notions the specification of the partitioner is worded with: the contiguous
  index range \<open>[a, b)\<close>, and a list without its last \<open>k\<close> entries.
\<close>

definition index_range :: "nat \<Rightarrow> nat \<Rightarrow> int list" where
  "index_range a b = map int [a..<b]"

definition remove_last :: "nat \<Rightarrow> 'a list \<Rightarrow> 'a list" where
  "remove_last k xs = take (length xs - k) xs"

section \<open>Tensors\<close>

text \<open>
  A tensor is its shape and its elements, addressed by a list of positions (one per
  dimension). Only positions inside the shape are meaningful. Division of floats by zero
  gives \<open>inf\<close> or \<open>nan\<close> in torch and \<open>0\<close> here; no theorem below depends on it.
\<close>

record tensor =
  shape :: "nat list"
  el :: "nat list \<Rightarrow> rat"

text \<open>Rectangular nested lists as tensors, to write down concrete arrays.\<close>

definition tensor2 :: "rat list list \<Rightarrow> tensor" where
  "tensor2 xs = \<lparr>shape = [length xs, length (xs ! 0)], el = (\<lambda>ix. xs ! (ix ! 0) ! (ix ! 1))\<rparr>"

definition tensor3 :: "rat list list list \<Rightarrow> tensor" where
  "tensor3 xs = \<lparr>shape = [length xs, length (xs ! 0), length (xs ! 0 ! 0)],
                 el = (\<lambda>ix. xs ! (ix ! 0) ! (ix ! 1) ! (ix ! 2))\<rparr>"

text \<open>\<open>t.full(shape, v)\<close>.\<close>

definition full :: "nat list \<Rightarrow> rat \<Rightarrow> tensor" where
  "full s v = \<lparr>shape = s, el = (\<lambda>ix. v)\<rparr>"

text \<open>Row \<open>i\<close> of a two-dimensional tensor, as a list.\<close>

definition row :: "tensor \<Rightarrow> nat \<Rightarrow> rat list" where
  "row t i = map (\<lambda>c. el t [i, c]) [0..<shape t ! 1]"

text \<open>
  \<open>t[index, :]\<close> for an integer array \<open>index\<close>: a new tensor (advanced indexing
  copies) with one row per entry of \<open>index\<close>. An entry outside \<open>[-n, n)\<close> raises, and so
  does a second subscript on a tensor with fewer than two dimensions.
\<close>

definition index_rows :: "tensor \<Rightarrow> int list \<Rightarrow> error + tensor" where
  "index_rows t index =
     (case shape t of
        n # c # rest \<Rightarrow>
          if list_all (\<lambda>i. py_index n i \<noteq> None) index
          then Inr \<lparr>shape = length index # c # rest,
                    el = (\<lambda>ix. el t (the (py_index n (index ! hd ix)) # tl ix))\<rparr>
          else Inl IndexError
      | _ \<Rightarrow> Inl IndexError)"

text \<open>
  \<open>t[:, :, idx : idx + window_size + 1]\<close> on the three-dimensional feature tensor: a
  slice, so it is cut at the tensor's end instead of raising.
\<close>

definition window :: "tensor \<Rightarrow> int \<Rightarrow> int \<Rightarrow> error + tensor" where
  "window t idx window_size =
     (case shape t of
        [f, c, n] \<Rightarrow>
          let a = slice_bound n idx; b = slice_bound n (idx + window_size + 1)
          in Inr \<lparr>shape = [f, c, b - a], el = (\<lambda>ix. el t [ix ! 0, ix ! 1, a + ix ! 2])\<rparr>
      | _ \<Rightarrow> Inl IndexError)"

text \<open>The first error of a list of results, or all the values.\<close>

fun collect :: "(error + 'a) list \<Rightarrow> error + 'a list" where
  "collect [] = Inr []"
| "collect (Inl e # rs) = Inl e"
| "collect (Inr x # rs) = (case collect rs of Inl e \<Rightarrow> Inl e | Inr xs \<Rightarrow> Inr (x # xs))"

text \<open>\<open>t.stack(ts)\<close>: a new first dimension; the list must be non-empty and of one shape.\<close>

definition stack :: "tensor list \<Rightarrow> error + tensor" where
  "stack ts =
     (case ts of
        [] \<Rightarrow> Inl RuntimeError
      | t0 # rest \<Rightarrow>
          if list_all (\<lambda>t. shape t = shape t0) rest
          then Inr \<lparr>shape = length ts # shape t0, el = (\<lambda>ix. el (ts ! hd ix) (tl ix))\<rparr>
          else Inl RuntimeError)"

text \<open>
  An integer subscript at dimension \<open>d\<close> with slices everywhere else, such as
  \<open>t[:, :, :, -1]\<close> (\<open>select t 3 (-1)\<close>): the dimension disappears.
\<close>

definition select :: "tensor \<Rightarrow> nat \<Rightarrow> int \<Rightarrow> error + tensor" where
  "select t d i =
     (if d < length (shape t) then
        (case py_index (shape t ! d) i of
           None \<Rightarrow> Inl IndexError
         | Some k \<Rightarrow>
             Inr \<lparr>shape = take d (shape t) @ drop (Suc d) (shape t),
                  el = (\<lambda>ix. el t (take d ix @ k # drop d ix))\<rparr>)
      else Inl IndexError)"

text \<open>\<open>t[..., :-1]\<close>: the last dimension without its last position.\<close>

definition slice_last :: "tensor \<Rightarrow> tensor" where
  "slice_last t =
     (case rev (shape t) of
        [] \<Rightarrow> t
      | n # ds \<Rightarrow> t\<lparr>shape := rev (slice_bound n (- 1) # ds)\<rparr>)"

text \<open>
  Broadcasting aligns two shapes at their last dimension; two aligned sizes must be
  equal or one of them must be 1, and a missing leading dimension counts as 1.
  \<open>broadcast_dims\<close> works on the reversed shapes.
\<close>

fun broadcast_dims :: "nat list \<Rightarrow> nat list \<Rightarrow> nat list option" where
  "broadcast_dims [] es = Some es"
| "broadcast_dims (d # ds) [] = Some (d # ds)"
| "broadcast_dims (d # ds) (e # es) =
     (if d = e \<or> e = 1 then map_option ((#) d) (broadcast_dims ds es)
      else if d = 1 then map_option ((#) e) (broadcast_dims ds es)
      else None)"

definition broadcast_shapes :: "nat list \<Rightarrow> nat list \<Rightarrow> nat list option" where
  "broadcast_shapes s t = map_option rev (broadcast_dims (rev s) (rev t))"

text \<open>
  The position read in an operand of shape \<open>s\<close> for the position \<open>ix\<close> of the
  broadcast result: leading positions are dropped, a dimension of size 1 is read at 0.
\<close>

definition broadcast_index :: "nat list \<Rightarrow> nat list \<Rightarrow> nat list" where
  "broadcast_index s ix =
     map (\<lambda>(d, i). if d = 1 then 0 else i) (zip s (drop (length ix - length s) ix))"

definition tensor_div :: "tensor \<Rightarrow> tensor \<Rightarrow> error + tensor" where
  "tensor_div a b =
     (case broadcast_shapes (shape a) (shape b) of
        None \<Rightarrow> Inl RuntimeError
      | Some s \<Rightarrow>
          Inr \<lparr>shape = s,
               el = (\<lambda>ix. el a (broadcast_index (shape a) ix) / el b (broadcast_index (shape b) ix))\<rparr>)"

text \<open>\<open>t.squeeze(-1)\<close>: drops the last dimension if its size is 1.\<close>

definition squeeze_last :: "tensor \<Rightarrow> tensor" where
  "squeeze_last t =
     (if shape t \<noteq> [] \<and> last (shape t) = 1
      then \<lparr>shape = butlast (shape t), el = (\<lambda>ix. el t (ix @ [0]))\<rparr>
      else t)"

text \<open>
  \<open>t.cat([a, b])\<close> concatenates along dimension 0, the default. The other dimensions
  must agree; a tensor of shape \<open>(0,)\<close> is skipped, a tensor without dimensions is refused.
\<close>

definition torch_cat :: "tensor \<Rightarrow> tensor \<Rightarrow> error + tensor" where
  "torch_cat a b =
     (if shape a = [] \<or> shape b = [] then Inl RuntimeError
      else if shape a = [0] then Inr b
      else if shape b = [0] then Inr a
      else if tl (shape a) = tl (shape b)
      then Inr \<lparr>shape = (hd (shape a) + hd (shape b)) # tl (shape a),
                el = (\<lambda>ix. if hd ix < hd (shape a) then el a ix
                           else el b ((hd ix - hd (shape a)) # tl ix))\<rparr>
      else Inl RuntimeError)"

section \<open>The geometric sampler: \_sample\_geometric\<close>

text \<open>
  The random source is a parameter: \<open>geometric bias p\<close> is what the \<open>p\<close>-th call of
  \<open>np.random.geometric(bias)\<close> returns, and the number of calls made so far is the state
  of the generator. numpy refuses a \<open>bias\<close> outside \<open>(0, 1]\<close> with a ValueError. The
  rejection loop may run forever, so the sampler returns an option: \<open>None\<close> is a loop
  that never ends.
\<close>

partial_function (option) sample_loop ::
  "(nat \<Rightarrow> int) \<Rightarrow> nat \<Rightarrow> int \<Rightarrow> int \<Rightarrow> int \<Rightarrow> (int \<times> nat) option" where
  "sample_loop draw p k start end_idx =
     (if k > end_idx - start then sample_loop draw (Suc p) (draw p) start end_idx
      else Some (end_idx - k, p))"

definition sample_geometric ::
  "(rat \<Rightarrow> nat \<Rightarrow> int) \<Rightarrow> nat \<Rightarrow> int \<Rightarrow> int \<Rightarrow> rat \<Rightarrow> ((error + int) \<times> nat) option" where
  "sample_geometric geometric p start end_idx bias =
     (if 0 < bias \<and> bias \<le> 1
      then map_option (\<lambda>(result, q). (Inr result, q))
             (sample_loop (geometric bias) (Suc p) (geometric bias p) start end_idx)
      else Some (Inl ValueError, p))"

text \<open>\<open>[self._sample_geometric(...) for _ in range(n)]\<close>: \<open>n\<close> samples, one after the other.\<close>

fun sample_many ::
  "(rat \<Rightarrow> nat \<Rightarrow> int) \<Rightarrow> nat \<Rightarrow> int \<Rightarrow> int \<Rightarrow> rat \<Rightarrow> nat \<Rightarrow> ((error + int list) \<times> nat) option" where
  "sample_many geometric p start end_idx bias 0 = Some (Inr [], p)"
| "sample_many geometric p start end_idx bias (Suc n) =
     (case sample_geometric geometric p start end_idx bias of
        None \<Rightarrow> None
      | Some (Inl e, q) \<Rightarrow> Some (Inl e, q)
      | Some (Inr r, q) \<Rightarrow>
          (case sample_many geometric q start end_idx bias n of
             None \<Rightarrow> None
           | Some (Inl e, q') \<Rightarrow> Some (Inl e, q')
           | Some (Inr rs, q') \<Rightarrow> Some (Inr (r # rs), q')))"

section \<open>The buffer: class PGPBuffer\<close>

record PGPBuffer =
  coin_features :: tensor
  pvm :: tensor
  batch_size :: int
  window_size :: int
  sample_bias :: rat
  portion_reversed :: bool
  is_unordered :: bool
  train_idx :: "int list"
  test_idx :: "int list"
  val_idx :: "int list"
  new_exp_count :: int

text \<open>
  \<open>__init__\<close>. The assertion on the number of dimensions and the division
  \<open>1.0 / coin_num\<close> are the two places that can raise.
\<close>

definition init ::
  "tensor \<Rightarrow> int \<Rightarrow> int \<Rightarrow> rat \<Rightarrow> rat \<Rightarrow> rat \<Rightarrow> bool \<Rightarrow> bool \<Rightarrow> error + PGPBuffer" where
  "init features bsize wsize test_portion validation_portion bias reversed unordered =
     (if length (shape features) \<noteq> 3 then Inl AssertionError
      else
        let coin_num = shape features ! 1; period_num = shape features ! 2
        in if coin_num = 0 then Inl ZeroDivisionError
           else
             (case divide_data (int period_num) wsize test_portion validation_portion reversed of
                Inl e \<Rightarrow> Inl e
              | Inr (train, test, val) \<Rightarrow>
                  Inr \<lparr>coin_features = features,
                       pvm = full [period_num, coin_num] (1 / of_nat coin_num),
                       batch_size = bsize, window_size = wsize, sample_bias = bias,
                       portion_reversed = reversed, is_unordered = unordered,
                       train_idx = train, test_idx = test, val_idx = val,
                       new_exp_count = 0\<rparr>))"

definition train_num :: "PGPBuffer \<Rightarrow> nat" where
  "train_num b = length (train_idx b)"

definition test_num :: "PGPBuffer \<Rightarrow> nat" where
  "test_num b = length (test_idx b)"

definition val_num :: "PGPBuffer \<Rightarrow> nat" where
  "val_num b = length (val_idx b)"

subsection \<open>\_pack\_samples and its callback\<close>

text \<open>
  The dictionary that \<open>_pack_samples\<close> returns. The closure \<open>setw\<close> is kept as the index
  array it captured; \<open>setw\<close> below is the closure's body, run on the buffer of the time of
  the call.
\<close>

record sample_batch =
  sample_X :: tensor
  sample_y :: tensor
  last_w :: tensor
  setw_index :: "int list"

text \<open>
  The target is \<open>batch[:, :, :, -1] / batch[:, 0, :, -2]\<close>. The numerator has the
  shape (batch, feature, coin) and the denominator the shape (batch, coin); the division
  broadcasts them as torch does, aligned at the last dimension.
\<close>

definition price_relative :: "tensor \<Rightarrow> error + tensor" where
  "price_relative batch =
     (case select batch 3 (- 1) of
        Inl e \<Rightarrow> Inl e
      | Inr numerator \<Rightarrow>
          (case select batch 1 0 of
             Inl e \<Rightarrow> Inl e
           | Inr channel0 \<Rightarrow>
               (case select channel0 2 (- 2) of
                  Inl e \<Rightarrow> Inl e
                | Inr denominator \<Rightarrow>
                    (case tensor_div numerator denominator of
                       Inl e \<Rightarrow> Inl e
                     | Inr q \<Rightarrow> Inr (squeeze_last q)))))"

definition pack_samples :: "PGPBuffer \<Rightarrow> int list \<Rightarrow> error + sample_batch" where
  "pack_samples b index =
     (case index_rows (pvm b) (map (\<lambda>i. i - 1) index) of
        Inl e \<Rightarrow> Inl e
      | Inr prior \<Rightarrow>
          (case collect (map (\<lambda>idx. window (coin_features b) idx (window_size b)) index) of
             Inl e \<Rightarrow> Inl e
           | Inr windows \<Rightarrow>
               (case stack windows of
                  Inl e \<Rightarrow> Inl e
                | Inr batch \<Rightarrow>
                    (case price_relative batch of
                       Inl e \<Rightarrow> Inl e
                     | Inr target \<Rightarrow>
                         Inr \<lparr>sample_X = slice_last batch, sample_y = target,
                              last_w = prior, setw_index = index\<rparr>))))"

text \<open>
  \<open>self._pvm[index, :] = w\<close>. torch drops the leading dimensions of size 1 of the value
  and broadcasts the rest to the shape of the rows written. It leaves the result open when
  an index occurs twice; here the later entry wins. When both an index and the shape of the
  value are wrong, the index is reported.
\<close>

definition setw :: "PGPBuffer \<Rightarrow> int list \<Rightarrow> tensor \<Rightarrow> error + PGPBuffer" where
  "setw b index w =
     (case shape (pvm b) of
        n # c # rest \<Rightarrow>
          if list_all (\<lambda>i. py_index n i \<noteq> None) index then
            let value_shape = dropWhile (\<lambda>d. d = 1) (shape w);
                dropped = length (shape w) - length value_shape
            in if broadcast_shapes (length index # c # rest) value_shape
                    = Some (length index # c # rest)
               then Inr (b\<lparr>pvm := (pvm b)\<lparr>el :=
                      (\<lambda>ix. case find (\<lambda>k. py_index n (index ! k) = Some (hd ix))
                                    (rev [0..<length index]) of
                               None \<Rightarrow> el (pvm b) ix
                             | Some k \<Rightarrow>
                                 el w (replicate dropped 0
                                       @ broadcast_index value_shape (k # tl ix)))\<rparr>\<rparr>)
               else Inl RuntimeError
          else Inl IndexError
      | _ \<Rightarrow> Inl IndexError)"

definition get_training_set :: "PGPBuffer \<Rightarrow> error + sample_batch" where
  "get_training_set b = pack_samples b (train_idx b)"

definition get_test_set :: "PGPBuffer \<Rightarrow> error + sample_batch" where
  "get_test_set b = pack_samples b (test_idx b)"

definition get_val_set :: "PGPBuffer \<Rightarrow> error + sample_batch" where
  "get_val_set b = pack_samples b (val_idx b)"

subsection \<open>next\_batch\<close>

text \<open>
  The indices of the next batch, with the state of the generator after drawing them.
  \<open>train_idx[0]\<close> raises on an empty training range.
\<close>

definition batch_index ::
  "PGPBuffer \<Rightarrow> (rat \<Rightarrow> nat \<Rightarrow> int) \<Rightarrow> nat \<Rightarrow> ((error + int list) \<times> nat) option" where
  "batch_index b geometric p =
     (if train_idx b = [] then Some (Inl IndexError, p)
      else
        let start_idx = hd (train_idx b); end_idx = last (train_idx b)
        in if is_unordered b
           then sample_many geometric p start_idx end_idx (sample_bias b) (nat (batch_size b))
           else
             (case sample_geometric geometric p start_idx end_idx (sample_bias b) of
                None \<Rightarrow> None
              | Some (Inl e, q) \<Rightarrow> Some (Inl e, q)
              | Some (Inr batch_start, q) \<Rightarrow>
                  Some (Inr (map (\<lambda>k. batch_start + int k) [0..<nat (batch_size b)]), q)))"

text \<open>
  An empty Python list becomes a float array under \<open>np.array\<close>, which torch refuses as
  an index: the only difference to packing an integer array.
\<close>

definition next_batch ::
  "PGPBuffer \<Rightarrow> (rat \<Rightarrow> nat \<Rightarrow> int) \<Rightarrow> nat \<Rightarrow> ((error + sample_batch) \<times> nat) option" where
  "next_batch b geometric p =
     (case batch_index b geometric p of
        None \<Rightarrow> None
      | Some (Inl e, q) \<Rightarrow> Some (Inl e, q)
      | Some (Inr batch_idx, q) \<Rightarrow>
          Some (if batch_idx = [] then Inl IndexError else pack_samples b batch_idx, q))"

subsection \<open>append\_experience\<close>

text \<open>
  The result is the new buffer, or the exception together with the buffer as the
  statements before the raise left it. \<open>self._train_idx\<close> is a numpy array, so \<open>+=\<close> with
  a list is numpy's in-place addition: the list is broadcast and added element by element
  (a list of another length than the array and than 1 is a ValueError); nothing is
  appended. The three index ranges are views of one array that do not overlap for valid
  fractions, so the addition is modelled as changing the training range only.
\<close>

definition append_experience ::
  "PGPBuffer \<Rightarrow> tensor \<Rightarrow> tensor option \<Rightarrow> (error \<times> PGPBuffer) + PGPBuffer" where
  "append_experience b new_features new_pvm =
     (if \<not> portion_reversed b then Inl (RuntimeError, b)
      else if shape new_features = [] then Inl (IndexError, b)
      else
        let n = last (shape new_features);
            b1 = b\<lparr>new_exp_count := new_exp_count b + int n\<rparr>
        in if train_idx b1 = [] then Inl (IndexError, b1)
           else
             let final = last (train_idx b1);
                 added = map (\<lambda>k. final + int k) [0..<n]
             in if n \<noteq> length (train_idx b1) \<and> n \<noteq> 1 then Inl (ValueError, b1)
                else
                  let b2 = b1\<lparr>train_idx :=
                             (if n = length (train_idx b1)
                              then map (\<lambda>(x, y). x + y) (zip (train_idx b1) added)
                              else map (\<lambda>x. x + final) (train_idx b1))\<rparr>
                  in (case torch_cat (coin_features b2) new_features of
                        Inl e \<Rightarrow> Inl (e, b2)
                      | Inr features \<Rightarrow>
                          let b3 = b2\<lparr>coin_features := features\<rparr>
                          in (case new_pvm of
                                None \<Rightarrow> Inl (AttributeError, b3)
                              | Some weights \<Rightarrow>
                                  (case torch_cat (pvm b3) weights of
                                     Inl e \<Rightarrow> Inl (e, b3)
                                   | Inr memory \<Rightarrow> Inr (b3\<lparr>pvm := memory\<rparr>)))))"

definition state_after :: "(error \<times> PGPBuffer) + PGPBuffer \<Rightarrow> PGPBuffer" where
  "state_after r = (case r of Inl (e, b) \<Rightarrow> b | Inr b \<Rightarrow> b)"

section \<open>Auxiliary notions and example data\<close>

text \<open>
  What a run of the rejection loop that returns \<open>y = (result, q)\<close> has done, when it was
  entered with the draw number \<open>p - 1\<close> in hand: the result comes from the draw number
  \<open>q - 1\<close>, which was accepted, and every draw before it was rejected.
\<close>

definition loop_post :: "(nat \<Rightarrow> int) \<Rightarrow> nat \<Rightarrow> int \<Rightarrow> int \<Rightarrow> int \<times> nat \<Rightarrow> bool" where
  "loop_post draw p start end_idx y \<longleftrightarrow>
     p \<le> snd y \<and> fst y = end_idx - draw (snd y - 1) \<and> draw (snd y - 1) \<le> end_idx - start
     \<and> (\<forall>j. p - 1 \<le> j \<and> j < snd y - 1 \<longrightarrow> end_idx - start < draw j)"

text \<open>A random source whose first two draws are too large for a range of length 4.\<close>

definition example_draws :: "rat \<Rightarrow> nat \<Rightarrow> int" where
  "example_draws bias p = (if p = 0 then 9 else if p = 1 then 6 else 2)"

text \<open>Sources whose every draw is 7, and whose every draw is 1.\<close>

definition far_draws :: "rat \<Rightarrow> nat \<Rightarrow> int" where
  "far_draws bias p = 7"

definition near_draws :: "rat \<Rightarrow> nat \<Rightarrow> int" where
  "near_draws bias p = 1"

text \<open>
  Buffers over a series of 16 timesteps of one channel and two assets, with window size 1,
  test fraction 1/4 and validation fraction 1/8: in the default order with batches of 5
  and of 10, and in reversed order.
\<close>

definition forward_buffer :: "error + PGPBuffer" where
  "forward_buffer = init (full [1, 2, 16] 1) 5 1 (1 / 4) (1 / 8) (1 / 10) False False"

definition long_batch_buffer :: "error + PGPBuffer" where
  "long_batch_buffer = init (full [1, 2, 16] 1) 10 1 (1 / 4) (1 / 8) (1 / 10) False False"

definition reversed_buffer :: "error + PGPBuffer" where
  "reversed_buffer = init (full [1, 2, 16] 1) 5 1 (1 / 4) (1 / 8) (1 / 10) True False"

text \<open>
  Price series of six timesteps for two assets, with two and with three feature channels
  (channel 0 is the reference price), and buffers over them whose training range is
  \<open>[0, 1, 2, 3]\<close>; the second buffer after one write-back, and a value to write next.
\<close>

definition prices2 :: tensor where
  "prices2 = tensor3 [[[100, 100, 110, 220, 100, 100], [10, 20, 40, 80, 10, 10]],
                      [[100, 105, 120, 240, 100, 100], [10, 25, 50, 100, 10, 10]]]"

definition buffer2 :: "error + PGPBuffer" where
  "buffer2 = init prices2 2 1 0 0 (1 / 10) False False"

definition prices3 :: tensor where
  "prices3 = tensor3 [[[100, 100, 110, 220, 100, 100], [10, 20, 40, 80, 10, 10]],
                      [[100, 105, 120, 240, 100, 100], [10, 25, 50, 100, 10, 10]],
                      [[100, 95, 100, 200, 100, 100], [10, 15, 30, 60, 10, 10]]]"

definition buffer3 :: "error + PGPBuffer" where
  "buffer3 = init prices3 2 1 0 0 (1 / 10) False False"

definition written_buffer2 :: "error + PGPBuffer" where
  "written_buffer2 = setw (projr buffer2) [1, 2] (tensor2 [[1 / 4, 3 / 4], [2 / 3, 1 / 3]])"

definition new_weights2 :: tensor where
  "new_weights2 = tensor2 [[1 / 2, 1 / 2], [1 / 5, 4 / 5]]"

text \<open>
  A reversed buffer over three timesteps of one channel and two assets, built with the
  window size \<open>-4\<close> and no test or validation data: the truncation \<open>[:3]\<close> keeps the whole
  training range \<open>[0, 1, 2]\<close>.
\<close>

definition whole_range_buffer :: "error + PGPBuffer" where
  "whole_range_buffer =
     init (tensor3 [[[0, 1, 2], [3, 4, 5]]]) 5 (- 4) 0 0 (1 / 10) True False"

text \<open>
  What a buffer built with a window size that is not negative satisfies, and keeps under
  write-backs and calls of \<open>append_experience\<close>: the feature tensor has three dimensions,
  the memory has one row per timestep and one column per asset, and the training range is
  shorter than the series (the partitioner cut at least one index off it).
\<close>

definition buffer_inv :: "PGPBuffer \<Rightarrow> bool" where
  "buffer_inv b \<longleftrightarrow>
     (\<exists>f c n. shape (coin_features b) = [f, c, n] \<and> shape (pvm b) = [n, c]
        \<and> (train_idx b = [] \<or> length (train_idx b) < n))"

section \<open>Slices of index ranges\<close>

lemma length_py_slice: "length (py_slice xs i j) \<le> length xs"
  by (simp add: py_slice_def Let_def)

lemma set_py_slice: "set (py_slice xs i j) \<subseteq> set xs"
  unfolding py_slice_def Let_def by (meson set_take_subset set_drop_subset subset_trans)

lemma py_slice_arange:
  assumes "0 \<le> a" "a \<le> b" "b \<le> n"
  shows "py_slice (np_arange n) a b = index_range (nat a) (nat b)"
proof -
  have len: "length (np_arange n) = nat n" by (simp add: np_arange_def)
  have sa: "slice_bound (nat n) a = nat a" using assms by (simp add: slice_bound_def)
  have sb: "slice_bound (nat n) b = nat b" using assms by (simp add: slice_bound_def)
  have "take (nat b - nat a) (drop (nat a) [0..<nat n]) = [nat a..<nat b]"
    using assms by (simp add: nat_le_eq_zle)
  then show ?thesis
    by (simp add: py_slice_def Let_def len sa sb np_arange_def index_range_def take_map drop_map)
qed

lemma np_split_arange:
  assumes "0 \<le> a" "a \<le> b" "b \<le> n"
  shows "np_split (np_arange n) a b =
           (index_range 0 (nat a), index_range (nat a) (nat b), index_range (nat b) (nat n))"
proof -
  have len: "int (length (np_arange n)) = n" using assms by (simp add: np_arange_def)
  have "py_slice (np_arange n) 0 a = index_range 0 (nat a)"
    using py_slice_arange [of 0 a n] assms by simp
  moreover have "py_slice (np_arange n) a b = index_range (nat a) (nat b)"
    using assms by (rule py_slice_arange)
  moreover have "py_slice (np_arange n) b n = index_range (nat b) (nat n)"
    using py_slice_arange [of b n n] assms by simp
  ultimately show ?thesis by (simp add: np_split_def len)
qed

lemma py_slice_remove_last:
  assumes "0 \<le> w"
  shows "py_slice xs 0 (- (w + 1)) = remove_last (nat (w + 1)) xs"
proof -
  have "nat (int (length xs) + (- w - 1)) = length xs - nat (w + 1)"
    using assms by arith
  with assms show ?thesis
    by (simp add: py_slice_def slice_bound_def Let_def remove_last_def)
qed

lemma split_points_ordered:
  fixes p q :: rat
  assumes "0 \<le> n" "0 \<le> p" "p \<le> q" "q \<le> 1"
  shows "0 \<le> astype_int (p * of_int n)"
    and "astype_int (p * of_int n) \<le> astype_int (q * of_int n)"
    and "astype_int (q * of_int n) \<le> n"
    and "astype_int (p * of_int n) = \<lfloor>p * of_int n\<rfloor>"
    and "astype_int (q * of_int n) = \<lfloor>q * of_int n\<rfloor>"
proof -
  have n0: "(0::rat) \<le> of_int n" using assms by simp
  have p0: "0 \<le> p * of_int n" and q0: "0 \<le> q * of_int n" using assms n0 by simp_all
  have "p * of_int n \<le> q * of_int n" using assms n0 by (simp add: mult_right_mono)
  then have pq: "\<lfloor>p * of_int n\<rfloor> \<le> \<lfloor>q * of_int n\<rfloor>" by (rule floor_mono)
  have "q * of_int n \<le> 1 * of_int n" using assms n0 by (intro mult_right_mono)
  then have "\<lfloor>q * of_int n\<rfloor> \<le> \<lfloor>(of_int n)::rat\<rfloor>" by (intro floor_mono) simp
  then have qn: "\<lfloor>q * of_int n\<rfloor> \<le> n" by simp
  from p0 q0 pq qn show "0 \<le> astype_int (p * of_int n)"
    and "astype_int (p * of_int n) \<le> astype_int (q * of_int n)"
    and "astype_int (q * of_int n) \<le> n"
    and "astype_int (p * of_int n) = \<lfloor>p * of_int n\<rfloor>"
    and "astype_int (q * of_int n) = \<lfloor>q * of_int n\<rfloor>"
    by (simp_all add: astype_int_def)
qed

lemma divide_data_forward:
  assumes "0 \<le> period_num" "0 \<le> test_portion" "0 \<le> val_portion"
    and "test_portion + val_portion \<le> 1"
  shows "divide_data period_num wsize test_portion val_portion False =
     Inr (py_slice (index_range 0
            (nat \<lfloor>(1 - test_portion - val_portion) * of_int period_num\<rfloor>)) 0 (- (wsize + 1)),
          py_slice (index_range
            (nat \<lfloor>(1 - test_portion - val_portion) * of_int period_num\<rfloor>)
            (nat \<lfloor>(1 - test_portion - val_portion + test_portion) * of_int period_num\<rfloor>))
            0 (- (wsize + 1)),
          py_slice (index_range
            (nat \<lfloor>(1 - test_portion - val_portion + test_portion) * of_int period_num\<rfloor>)
            (nat period_num)) 0 (- (wsize + 1)))"
proof -
  let ?p = "1 - test_portion - val_portion"
  let ?q = "?p + test_portion"
  have "0 \<le> ?p" "?p \<le> ?q" "?q \<le> 1" using assms by simp_all
  note sp = split_points_ordered [OF assms(1) this]
  from np_split_arange [OF sp(1,2,3)] sp(4,5)
  show ?thesis by (simp add: divide_data_def Let_def)
qed

lemma divide_data_backward:
  assumes "0 \<le> period_num" "0 \<le> test_portion" "0 \<le> val_portion"
    and "test_portion + val_portion \<le> 1"
  shows "divide_data period_num wsize test_portion val_portion True =
     Inr (py_slice (index_range
            (nat \<lfloor>(val_portion + test_portion) * of_int period_num\<rfloor>)
            (nat period_num)) 0 (- (wsize + 1)),
          py_slice (index_range
            (nat \<lfloor>val_portion * of_int period_num\<rfloor>)
            (nat \<lfloor>(val_portion + test_portion) * of_int period_num\<rfloor>))
            0 (- (wsize + 1)),
          py_slice (index_range 0
            (nat \<lfloor>val_portion * of_int period_num\<rfloor>)) 0 (- (wsize + 1)))"
proof -
  let ?p = "val_portion"
  let ?q = "?p + test_portion"
  have "0 \<le> ?p" "?p \<le> ?q" "?q \<le> 1" using assms by simp_all
  note sp = split_points_ordered [OF assms(1) this]
  from np_split_arange [OF sp(1,2,3)] sp(4,5)
  show ?thesis by (simp add: divide_data_def Let_def)
qed

lemma py_slice_index_range:
  "set (py_slice (index_range a b) i j) \<subseteq> int ` {a..<b}"
  "length (py_slice (index_range a b) i j) \<le> b - a"
  using set_py_slice [of "index_range a b" i j] length_py_slice [of "index_range a b" i j]
  by (simp_all add: index_range_def)

lemma three_ranges_disjoint:
  assumes "a \<le> b" and "b \<le> n"
    and "set xs \<subseteq> int ` {0..<a}" and "set ys \<subseteq> int ` {a..<b}" and "set zs \<subseteq> int ` {b..<n}"
    and "length xs \<le> a - 0" and "length ys \<le> b - a" and "length zs \<le> n - b"
  shows "set xs \<inter> set ys = {} \<and> set xs \<inter> set zs = {} \<and> set ys \<inter> set zs = {}
         \<and> length xs + length ys + length zs \<le> n"
proof -
  have d1: "int ` {0..<a} \<inter> int ` {a..<b} = {}" by auto
  have d2: "int ` {0..<a} \<inter> int ` {b..<n} = {}" using assms(1) by auto
  have d3: "int ` {a..<b} \<inter> int ` {b..<n} = {}" by auto
  have l: "length xs + length ys + length zs \<le> n" using assms by linarith
  have "set xs \<inter> set ys = {}" using d1 assms(3,4) by blast
  moreover have "set xs \<inter> set zs = {}" using d2 assms(3,5) by blast
  moreover have "set ys \<inter> set zs = {}" using d3 assms(4,5) by blast
  ultimately show ?thesis using l by simp
qed

section \<open>The partitioner\<close>

lemma divide_data_exact:
  "divide_data_with exact_arith period_num wsize test_portion val_portion reversed
     = divide_data period_num wsize test_portion val_portion reversed"
  by (cases reversed)
    (simp_all add: divide_data_with_def divide_data_def split_products_def exact_arith_def
      Let_def split: prod.splits)

text \<open>
  Claim C3, as stated for every window size and all fractions, fails. With the window size
  \<open>-1\<close> the slice \<open>[:-0]\<close> is \<open>[:0]\<close>: all three ranges come back empty, where removing the
  last \<open>window_size + 1 = 0\<close> indices leaves \<open>[0, 1]\<close> for training. With the test fraction
  \<open>-1/16\<close> in reversed order the second product is \<open>-1/2\<close>, which \<open>astype(int)\<close>
  truncates to 0, not down to \<open>-1\<close>. (All numbers here are exact in float64.)
\<close>

theorem divide_data_with_negative_inputs:
  "divide_data_with double_arith 8 (- 1) (1 / 2) (1 / 4) False = Inr ([], [], [])
   \<and> remove_last (nat (- 1 + 1)) (index_range 0 2) = [0, 1]
   \<and> split_products double_arith 8 (- 1 / 16) 0 True = (0, - 1 / 2)
   \<and> divide_data_with double_arith 8 0 (- 1 / 16) 0 True = Inr ([0, 1, 2, 3, 4, 5, 6], [], [])
   \<and> \<lfloor>- 1 / 2 :: rat\<rfloor> = - 1"
  by code_simp

text \<open>
  Claim C3, amended. Let \<open>x\<close> and \<open>y\<close> be the two float products of a fraction with
  \<open>period_num\<close>: of \<open>(1 - test) - val\<close> and of that plus \<open>test\<close> without \<open>reversed\<close>, of
  \<open>val\<close> and of \<open>val + test\<close> with \<open>reversed\<close>, each operation rounded by the float
  arithmetic. For a window size that is not negative and \<open>0 \<le> x \<le> y \<le> period_num\<close>, the
  split points are \<open>x\<close> and \<open>y\<close> rounded down; without \<open>reversed\<close> the ranges
  \<open>[0, a)\<close>, \<open>[a, b)\<close>, \<open>[b, period_num)\<close> are train, test, validation, with \<open>reversed\<close>
  they are validation, test, train; and each returned range is its contiguous range
  without its last \<open>window_size + 1\<close> indices. This holds for every float arithmetic.
\<close>

theorem divide_data_with_split_order_truncation:
  assumes w: "0 \<le> wsize"
    and sp: "split_products ops period_num test_portion val_portion reversed = (x, y)"
    and x: "0 \<le> x" and xy: "x \<le> y" and y: "y \<le> of_int period_num"
  shows "(x, y) =
           (if reversed
            then (fmul ops val_portion (fint ops period_num),
                  fmul ops (fadd ops val_portion test_portion) (fint ops period_num))
            else (fmul ops (fsub ops (fsub ops 1 test_portion) val_portion) (fint ops period_num),
                  fmul ops (fadd ops (fsub ops (fsub ops 1 test_portion) val_portion) test_portion)
                    (fint ops period_num)))
       \<and> divide_data_with ops period_num wsize test_portion val_portion reversed =
           (if reversed
            then Inr (remove_last (nat (wsize + 1)) (index_range (nat \<lfloor>y\<rfloor>) (nat period_num)),
                      remove_last (nat (wsize + 1)) (index_range (nat \<lfloor>x\<rfloor>) (nat \<lfloor>y\<rfloor>)),
                      remove_last (nat (wsize + 1)) (index_range 0 (nat \<lfloor>x\<rfloor>)))
            else Inr (remove_last (nat (wsize + 1)) (index_range 0 (nat \<lfloor>x\<rfloor>)),
                      remove_last (nat (wsize + 1)) (index_range (nat \<lfloor>x\<rfloor>) (nat \<lfloor>y\<rfloor>)),
                      remove_last (nat (wsize + 1)) (index_range (nat \<lfloor>y\<rfloor>) (nat period_num))))"
proof -
  have ax: "astype_int x = \<lfloor>x\<rfloor>" and ay: "astype_int y = \<lfloor>y\<rfloor>"
    using x xy by (simp_all add: astype_int_def)
  have a0: "0 \<le> \<lfloor>x\<rfloor>" using x by simp
  have ab: "\<lfloor>x\<rfloor> \<le> \<lfloor>y\<rfloor>" using xy by (rule floor_mono)
  have "\<lfloor>y\<rfloor> \<le> \<lfloor>(of_int period_num) :: rat\<rfloor>" using y by (rule floor_mono)
  then have bn: "\<lfloor>y\<rfloor> \<le> period_num" by simp
  note split = np_split_arange [OF a0 ab bn]
  have products: "(x, y) =
           (if reversed
            then (fmul ops val_portion (fint ops period_num),
                  fmul ops (fadd ops val_portion test_portion) (fint ops period_num))
            else (fmul ops (fsub ops (fsub ops 1 test_portion) val_portion) (fint ops period_num),
                  fmul ops (fadd ops (fsub ops (fsub ops 1 test_portion) val_portion) test_portion)
                    (fint ops period_num)))"
    using sp by (simp add: split_products_def Let_def)
  have "divide_data_with ops period_num wsize test_portion val_portion reversed =
      (if reversed
       then Inr (py_slice (index_range (nat \<lfloor>y\<rfloor>) (nat period_num)) 0 (- (wsize + 1)),
                 py_slice (index_range (nat \<lfloor>x\<rfloor>) (nat \<lfloor>y\<rfloor>)) 0 (- (wsize + 1)),
                 py_slice (index_range 0 (nat \<lfloor>x\<rfloor>)) 0 (- (wsize + 1)))
       else Inr (py_slice (index_range 0 (nat \<lfloor>x\<rfloor>)) 0 (- (wsize + 1)),
                 py_slice (index_range (nat \<lfloor>x\<rfloor>) (nat \<lfloor>y\<rfloor>)) 0 (- (wsize + 1)),
                 py_slice (index_range (nat \<lfloor>y\<rfloor>) (nat period_num)) 0 (- (wsize + 1))))"
    by (simp add: divide_data_with_def sp ax ay split Let_def del: minus_add_distrib)
  then show ?thesis
    unfolding py_slice_remove_last [OF w] using products by simp
qed

theorem divide_data_with_split_order_truncation_witness:
  "split_products double_arith 10 tenth fifth False
     = (7, 9007199254740991 / 1125899906842624)
   \<and> divide_data_with double_arith 10 0 tenth fifth False = Inr ([0, 1, 2, 3, 4, 5], [], [7, 8])
   \<and> divide_data_with double_arith 16 1 (1 / 4) (1 / 8) True
       = Inr ([6, 7, 8, 9, 10, 11, 12, 13], [2, 3], [])"
proof -
  have p1: "split_products double_arith 10 tenth fifth False
      = (7, 9007199254740991 / 1125899906842624)"
    by code_simp
  have p2: "split_products double_arith 16 (1 / 4) (1 / 8) True = (2, 6)"
    by code_simp
  have fl: "\<lfloor>9007199254740991 / 1125899906842624 :: rat\<rfloor> = 7" by code_simp
  from divide_data_with_split_order_truncation [OF _ p1, of 0]
  have r1: "divide_data_with double_arith 10 0 tenth fifth False = Inr ([0, 1, 2, 3, 4, 5], [], [7, 8])"
    by (simp add: fl remove_last_def index_range_def upt_conv_Cons)
  from divide_data_with_split_order_truncation [OF _ p2, of 1]
  have r2: "divide_data_with double_arith 16 1 (1 / 4) (1 / 8) True
       = Inr ([6, 7, 8, 9, 10, 11, 12, 13], [2, 3], [])"
    by (simp add: remove_last_def index_range_def upt_conv_Cons)
  from p1 r1 r2 show ?thesis by simp
qed

text \<open>
  Claim C7. For valid inputs the three returned ranges are pairwise disjoint, each has a
  length that is not negative, and the lengths add up to at most \<open>period_num\<close>.
\<close>

theorem divide_data_disjoint:
  assumes "0 \<le> period_num" and "0 \<le> test_portion" and "0 \<le> val_portion"
    and "test_portion + val_portion \<le> 1"
    and "divide_data period_num wsize test_portion val_portion reversed =
           Inr (train, test, val)"
  shows "set train \<inter> set test = {} \<and> set train \<inter> set val = {}
         \<and> set test \<inter> set val = {}
         \<and> 0 \<le> int (length train) \<and> 0 \<le> int (length test) \<and> 0 \<le> int (length val)
         \<and> int (length train) + int (length test) + int (length val) \<le> period_num"
proof (cases reversed)
  case False
  let ?p = "1 - test_portion - val_portion"
  let ?q = "?p + test_portion"
  have pq: "0 \<le> ?p" "?p \<le> ?q" "?q \<le> 1" using assms by simp_all
  note sp = split_points_ordered [OF assms(1) pq]
  from sp have ab: "nat \<lfloor>?p * of_int period_num\<rfloor> \<le> nat \<lfloor>?q * of_int period_num\<rfloor>"
    "nat \<lfloor>?q * of_int period_num\<rfloor> \<le> nat period_num" by simp_all
  from assms(5) False divide_data_forward [OF assms(1,2,3,4), of wsize]
  have eqs: "train = py_slice (index_range 0 (nat \<lfloor>?p * of_int period_num\<rfloor>)) 0 (- (wsize + 1))"
    "test = py_slice (index_range (nat \<lfloor>?p * of_int period_num\<rfloor>)
         (nat \<lfloor>?q * of_int period_num\<rfloor>)) 0 (- (wsize + 1))"
    "val = py_slice (index_range (nat \<lfloor>?q * of_int period_num\<rfloor>) (nat period_num)) 0
         (- (wsize + 1))"
    by simp_all
  have "set train \<inter> set test = {} \<and> set train \<inter> set val = {}
      \<and> set test \<inter> set val = {}
      \<and> length train + length test + length val \<le> nat period_num"
    unfolding eqs by (rule three_ranges_disjoint [OF ab]) (rule py_slice_index_range)+
  moreover from this assms(1)
  have "int (length train) + int (length test) + int (length val) \<le> period_num"
    by linarith
  ultimately show ?thesis by simp
next
  case True
  let ?p = "val_portion"
  let ?q = "?p + test_portion"
  have pq: "0 \<le> ?p" "?p \<le> ?q" "?q \<le> 1" using assms by simp_all
  note sp = split_points_ordered [OF assms(1) pq]
  from sp have ab: "nat \<lfloor>?p * of_int period_num\<rfloor> \<le> nat \<lfloor>?q * of_int period_num\<rfloor>"
    "nat \<lfloor>?q * of_int period_num\<rfloor> \<le> nat period_num" by simp_all
  from assms(5) True divide_data_backward [OF assms(1,2,3,4), of wsize]
  have eqs: "val = py_slice (index_range 0 (nat \<lfloor>?p * of_int period_num\<rfloor>)) 0 (- (wsize + 1))"
    "test = py_slice (index_range (nat \<lfloor>?p * of_int period_num\<rfloor>)
         (nat \<lfloor>?q * of_int period_num\<rfloor>)) 0 (- (wsize + 1))"
    "train = py_slice (index_range (nat \<lfloor>?q * of_int period_num\<rfloor>) (nat period_num)) 0
         (- (wsize + 1))"
    by simp_all
  have "set val \<inter> set test = {} \<and> set val \<inter> set train = {}
      \<and> set test \<inter> set train = {}
      \<and> length val + length test + length train \<le> nat period_num"
    unfolding eqs by (rule three_ranges_disjoint [OF ab]) (rule py_slice_index_range)+
  moreover from this assms(1)
  have "int (length train) + int (length test) + int (length val) \<le> period_num"
    by linarith
  ultimately show ?thesis by (simp add: Int_commute)
qed

theorem divide_data_disjoint_witness:
  "divide_data 16 1 (1/4) (1/8) False = Inr ([0, 1, 2, 3, 4, 5, 6, 7], [10, 11], [])
   \<and> set [0, 1, 2, 3, 4, 5, 6, 7 :: int] \<inter> set [10, 11] = {}
   \<and> int (length [0, 1, 2, 3, 4, 5, 6, 7 :: int]) + int (length [10, 11 :: int]) + int (length ([] :: int list)) \<le> 16"
proof -
  have e: "divide_data 16 1 (1/4) (1/8) False = Inr ([0, 1, 2, 3, 4, 5, 6, 7], [10, 11], [])"
    by code_simp
  from divide_data_disjoint [OF _ _ _ _ e] e show ?thesis by simp
qed

text \<open>
  Claim C8, as stated, fails: with \<open>test_fraction + val_fraction = 1\<close> the function raises
  nothing and returns an empty training range.
\<close>

theorem divide_data_accepts_full_fractions:
  "divide_data 8 1 (1/2) (1/2) False = Inr ([], [0, 1], [4, 5])"
  by code_simp

text \<open>
  Claim C8, amended. \<open>_divide_data\<close> validates nothing and never fails, whatever the
  fractions are; when the series is no longer than \<open>window_size + 1\<close> it returns
  three empty ranges.
\<close>

theorem divide_data_no_validation:
  "\<not> isl (divide_data period_num wsize test_portion val_portion reversed)
   \<and> (0 \<le> wsize \<and> period_num \<le> wsize + 1 \<longrightarrow>
        divide_data period_num wsize test_portion val_portion reversed =
          Inr ([], [], []))"
proof -
  have short: "py_slice xs 0 (- (wsize + 1)) = []"
    if "0 \<le> wsize" "int (length xs) \<le> wsize + 1" for xs :: "int list"
    unfolding py_slice_remove_last [OF that(1)] using that by (simp add: remove_last_def)
  have len: "int (length (py_slice (np_arange period_num) i j)) \<le> wsize + 1"
    if "period_num \<le> wsize + 1" "0 \<le> wsize" for i j
    using length_py_slice [of "np_arange period_num" i j] that
    by (simp add: np_arange_def)
  have ok: "\<not> isl (divide_data period_num wsize test_portion val_portion reversed)"
    by (simp add: divide_data_def Let_def split: prod.splits)
  have empty: "divide_data period_num wsize test_portion val_portion reversed =
          Inr ([], [], [])" if w: "0 \<le> wsize" and p: "period_num \<le> wsize + 1"
    unfolding divide_data_def Let_def np_split_def
    by (simp add: short [OF w len [OF p w]] del: minus_add_distrib)
  from ok empty show ?thesis by blast
qed

theorem divide_data_no_validation_witness:
  "\<not> isl (divide_data 2 1 (1/2) (3/4) True) \<and> divide_data 2 1 (1/2) (3/4) True = Inr ([], [], [])"
  using divide_data_no_validation [of 2 1 "1/2" "3/4" True] by simp

section \<open>The geometric sampler\<close>

lemma sample_loop_result:
  assumes ret: "sample_loop draw p k start end_idx = Some y"
  shows "1 \<le> p \<and> k = draw (p - 1) \<longrightarrow> loop_post draw p start end_idx y"
proof (rule sample_loop.raw_induct
    [where P = "\<lambda>draw p k start end_idx y. 1 \<le> p \<and> k = draw (p - 1) \<longrightarrow>
                  loop_post draw p start end_idx y", OF _ ret])
  fix f :: "(nat \<Rightarrow> int) \<Rightarrow> nat \<Rightarrow> int \<Rightarrow> int \<Rightarrow> int \<Rightarrow> (int \<times> nat) option"
  fix draw p k start end_idx y
  assume IH: "\<And>draw p k start end_idx y. f draw p k start end_idx = Some y \<Longrightarrow>
           1 \<le> p \<and> k = draw (p - 1) \<longrightarrow> loop_post draw p start end_idx y"
    and eq: "(if end_idx - start < k then f draw (Suc p) (draw p) start end_idx
             else Some (end_idx - k, p)) = Some y"
  show "1 \<le> p \<and> k = draw (p - 1) \<longrightarrow> loop_post draw p start end_idx y"
  proof (intro impI)
    assume pk: "1 \<le> p \<and> k = draw (p - 1)"
    show "loop_post draw p start end_idx y"
    proof (cases "end_idx - start < k")
      case False
      with eq have "y = (end_idx - k, p)" by simp
      with False pk show ?thesis by (simp add: loop_post_def)
    next
      case True
      with eq have "f draw (Suc p) (draw p) start end_idx = Some y" by simp
      from IH [OF this] have step: "loop_post draw (Suc p) start end_idx y" by simp
      have "end_idx - start < draw j" if "p - 1 \<le> j" "j < snd y - 1" for j
      proof (cases "j = p - 1")
        case True
        with pk \<open>end_idx - start < k\<close> show ?thesis by simp
      next
        case False
        with that have "Suc p - 1 \<le> j" by arith
        with step that show ?thesis unfolding loop_post_def by blast
      qed
      moreover from step have "p \<le> snd y" "fst y = end_idx - draw (snd y - 1)"
        "draw (snd y - 1) \<le> end_idx - start"
        unfolding loop_post_def by simp_all
      ultimately show ?thesis unfolding loop_post_def by blast
    qed
  qed
qed

lemma sample_loop_returns:
  assumes "draw (p + n) \<le> end_idx - start"
  shows "\<exists>r q. sample_loop draw p k start end_idx = Some (r, q)"
  using assms
proof (induction n arbitrary: p k)
  case 0
  show ?case
  proof (cases "end_idx - start < k")
    case False
    then show ?thesis by (subst sample_loop.simps) simp
  next
    case True
    from 0 have "sample_loop draw (Suc p) (draw p) start end_idx = Some (end_idx - draw p, Suc p)"
      by (subst sample_loop.simps) simp
    with True show ?thesis by (subst sample_loop.simps) simp
  qed
next
  case (Suc n)
  show ?case
  proof (cases "end_idx - start < k")
    case False
    then show ?thesis by (subst sample_loop.simps) simp
  next
    case True
    from Suc.prems have "draw (Suc p + n) \<le> end_idx - start" by simp
    from Suc.IH [OF this, of "draw p"] True
    show ?thesis by (subst sample_loop.simps) simp
  qed
qed

lemma sample_geometric_bounds:
  assumes ret: "sample_geometric geometric p start end_idx bias = Some (res, q)"
    and bias: "0 < bias" "bias \<le> 1"
  shows "p < q \<and> res = Inr (end_idx - geometric bias (q - 1))
         \<and> geometric bias (q - 1) \<le> end_idx - start
         \<and> (\<forall>j. p \<le> j \<and> j < q - 1 \<longrightarrow> end_idx - start < geometric bias j)"
proof -
  from ret bias obtain r where
    loop: "sample_loop (geometric bias) (Suc p) (geometric bias p) start end_idx = Some (r, q)"
    and res: "res = Inr r"
    by (auto simp: sample_geometric_def)
  from sample_loop_result [OF loop]
  have "loop_post (geometric bias) (Suc p) start end_idx (r, q)" by simp
  with res show ?thesis by (simp add: loop_post_def)
qed

text \<open>
  Claim C2. For \<open>start < end\<close> and a bias in \<open>(0, 1)\<close>, with draws that are at least 1:
  whenever the sampler returns, it returns \<open>end - k\<close> for the last draw \<open>k\<close>, which
  satisfies \<open>1 \<le> k \<le> end - start\<close>; every earlier draw was larger than \<open>end - start\<close> and
  was redrawn; so the result lies in \<open>[start, end)\<close>. The sampler does return as soon as
  the source produces a draw that is at most \<open>end - start\<close>.
\<close>

theorem sample_geometric_returns_in_range:
  assumes "start < end_idx" and "1 \<le> end_idx - start" and "0 < bias" and "bias < 1"
    and draws: "\<forall>j. 1 \<le> geometric bias j"
  shows "(\<forall>res q. sample_geometric geometric p start end_idx bias = Some (res, q) \<longrightarrow>
            p < q
            \<and> res = Inr (end_idx - geometric bias (q - 1))
            \<and> 1 \<le> geometric bias (q - 1) \<and> geometric bias (q - 1) \<le> end_idx - start
            \<and> (\<forall>j. p \<le> j \<and> j < q - 1 \<longrightarrow> end_idx - start < geometric bias j)
            \<and> start \<le> end_idx - geometric bias (q - 1)
            \<and> end_idx - geometric bias (q - 1) < end_idx)
       \<and> ((\<exists>j\<ge>p. geometric bias j \<le> end_idx - start) \<longrightarrow>
            (\<exists>i q. sample_geometric geometric p start end_idx bias = Some (Inr i, q)
                   \<and> start \<le> i \<and> i < end_idx))"
proof (intro conjI allI impI)
  fix res q
  assume ret: "sample_geometric geometric p start end_idx bias = Some (res, q)"
  from sample_geometric_bounds [OF ret] assms(3,4)
  have b: "p < q" "res = Inr (end_idx - geometric bias (q - 1))"
    "geometric bias (q - 1) \<le> end_idx - start"
    "\<forall>j. p \<le> j \<and> j < q - 1 \<longrightarrow> end_idx - start < geometric bias j"
    by simp_all
  from draws have one: "1 \<le> geometric bias (q - 1)" by simp
  show "p < q" by (rule b(1))
  show "res = Inr (end_idx - geometric bias (q - 1))" by (rule b(2))
  show "1 \<le> geometric bias (q - 1)" by (rule one)
  show "geometric bias (q - 1) \<le> end_idx - start" by (rule b(3))
  show "start \<le> end_idx - geometric bias (q - 1)" using b(3) by simp
  show "end_idx - geometric bias (q - 1) < end_idx" using one by simp
  fix j assume "p \<le> j \<and> j < q - 1"
  with b(4) show "end_idx - start < geometric bias j" by simp
next
  assume "\<exists>j\<ge>p. geometric bias j \<le> end_idx - start"
  then obtain j where j: "p \<le> j" "geometric bias j \<le> end_idx - start" by blast
  show "\<exists>i q. sample_geometric geometric p start end_idx bias = Some (Inr i, q)
               \<and> start \<le> i \<and> i < end_idx"
  proof (cases "j = p")
    case True
    with j have "sample_loop (geometric bias) (Suc p) (geometric bias p) start end_idx =
        Some (end_idx - geometric bias p, Suc p)"
      by (subst sample_loop.simps) simp
    with assms(3,4) have "sample_geometric geometric p start end_idx bias =
        Some (Inr (end_idx - geometric bias p), Suc p)"
      by (simp add: sample_geometric_def)
    moreover have "1 \<le> geometric bias p" using draws by simp
    with j True have "start \<le> end_idx - geometric bias p"
      "end_idx - geometric bias p < end_idx"
      by simp_all
    ultimately show ?thesis by blast
  next
    case False
    with j have "geometric bias (Suc p + (j - Suc p)) \<le> end_idx - start" by simp
    from sample_loop_returns [of "geometric bias" "Suc p" "j - Suc p" end_idx start
        "geometric bias p", OF this]
    obtain r q where loop:
      "sample_loop (geometric bias) (Suc p) (geometric bias p) start end_idx = Some (r, q)"
      by blast
    with assms(3,4) have ret: "sample_geometric geometric p start end_idx bias = Some (Inr r, q)"
      by (simp add: sample_geometric_def)
    from sample_geometric_bounds [OF ret] assms(3,4)
    have "r = end_idx - geometric bias (q - 1)" "geometric bias (q - 1) \<le> end_idx - start"
      by simp_all
    moreover have "1 \<le> geometric bias (q - 1)" using draws by simp
    ultimately have "start \<le> r" "r < end_idx" by simp_all
    with ret show ?thesis by blast
  qed
qed

theorem sample_geometric_returns_in_range_witness:
  "sample_geometric example_draws 0 0 4 (1 / 10) = Some (Inr 2, 3) \<and> (0::int) \<le> 4 - 2 \<and> (4::int) - 2 < 4"
proof -
  have ev: "sample_geometric example_draws 0 0 4 (1 / 10) = Some (Inr 2, 3)"
    by (simp add: sample_geometric_def sample_loop.simps example_draws_def)
  have d: "\<forall>j. 1 \<le> example_draws (1 / 10) j" by (simp add: example_draws_def)
  from sample_geometric_returns_in_range [of 0 4 "1 / 10" example_draws 0, OF _ _ _ _ d] ev
  show ?thesis by (simp add: example_draws_def)
qed

section \<open>Batch indices\<close>

lemma sample_geometric_value:
  assumes "sample_geometric geometric p start end_idx bias = Some (Inr i, q)"
    and "\<forall>j. 1 \<le> geometric bias j"
  shows "start \<le> i \<and> i < end_idx"
proof -
  from assms(1) have bias: "0 < bias" "bias \<le> 1"
    by (auto simp: sample_geometric_def split: if_splits)
  from sample_geometric_bounds [OF assms(1) bias]
  have "i = end_idx - geometric bias (q - 1)" "geometric bias (q - 1) \<le> end_idx - start"
    by simp_all
  moreover from assms(2) have "1 \<le> geometric bias (q - 1)" by simp
  ultimately show ?thesis by simp
qed

lemma sample_many_values:
  assumes "sample_many geometric p start end_idx bias n = Some (Inr xs, q)"
    and "\<forall>j. 1 \<le> geometric bias j"
  shows "list_all (\<lambda>i. start \<le> i \<and> i < end_idx) xs \<and> length xs = n"
  using assms(1)
proof (induction n arbitrary: p xs q)
  case 0
  then show ?case by simp
next
  case (Suc n)
  from Suc.prems obtain r p' rs where
    first: "sample_geometric geometric p start end_idx bias = Some (Inr r, p')"
    and others: "sample_many geometric p' start end_idx bias n = Some (Inr rs, q)"
    and xs: "xs = r # rs"
    by (auto split: option.splits sum.splits prod.splits)
  from sample_geometric_value [OF first assms(2)] Suc.IH [OF others] xs
  show ?case by simp
qed

text \<open>
  Claim C9, as stated, fails: in the default order the training range starts at 0, and a
  draw equal to the length of the range makes 0 the start of the batch.
\<close>

theorem batch_index_includes_first_timestep:
  "\<not> isl forward_buffer
   \<and> train_idx (projr forward_buffer) = [0, 1, 2, 3, 4, 5, 6, 7]
   \<and> batch_index (projr forward_buffer) far_draws 0 = Some (Inr [0, 1, 2, 3, 4], 1)"
proof -
  have t: "\<not> isl forward_buffer \<and> train_idx (projr forward_buffer) = [0, 1, 2, 3, 4, 5, 6, 7]
    \<and> \<not> is_unordered (projr forward_buffer) \<and> batch_size (projr forward_buffer) = 5
    \<and> sample_bias (projr forward_buffer) = 1 / 10"
    by code_simp
  have s: "sample_geometric far_draws 0 0 7 (1 / 10) = Some (Inr 0, 1)"
    by (simp add: sample_geometric_def sample_loop.simps far_draws_def)
  have "batch_index (projr forward_buffer) far_draws 0 = Some (Inr [0, 1, 2, 3, 4], 1)"
    by (simp add: batch_index_def t s upt_conv_Cons)
  with t show ?thesis by simp
qed

text \<open>
  Claim C9, amended. Every index of a training batch is at least \<open>train_idx[0]\<close>; index 0
  is therefore left out whenever the training range starts after 0, as it does in reversed
  order with a positive first split point. Nothing else keeps index 0 out of a batch.
\<close>

theorem batch_index_at_least_train_start:
  assumes "batch_index b geometric p = Some (Inr batch_idx, q)"
    and "\<forall>j. 1 \<le> geometric (sample_bias b) j"
  shows "(\<forall>i \<in> set batch_idx. hd (train_idx b) \<le> i)
         \<and> (0 < hd (train_idx b) \<longrightarrow> 0 \<notin> set batch_idx)"
proof -
  from assms(1) have ne: "train_idx b \<noteq> []"
    by (auto simp: batch_index_def split: if_splits)
  have low: "hd (train_idx b) \<le> i" if "i \<in> set batch_idx" for i
  proof (cases "is_unordered b")
    case True
    with assms(1) ne have "sample_many geometric p (hd (train_idx b)) (last (train_idx b))
        (sample_bias b) (nat (batch_size b)) = Some (Inr batch_idx, q)"
      by (simp add: batch_index_def Let_def)
    from sample_many_values [OF this assms(2)] that show ?thesis
      by (simp add: list_all_iff)
  next
    case False
    with assms(1) ne obtain s where
      s: "sample_geometric geometric p (hd (train_idx b)) (last (train_idx b)) (sample_bias b)
            = Some (Inr s, q)"
      and idx: "batch_idx = map (\<lambda>k. s + int k) [0..<nat (batch_size b)]"
      by (auto simp: batch_index_def Let_def split: option.splits sum.splits prod.splits)
    from sample_geometric_value [OF s assms(2)] have "hd (train_idx b) \<le> s" by simp
    with that idx show ?thesis by auto
  qed
  then show ?thesis by force
qed

theorem batch_index_at_least_train_start_witness:
  "batch_index (projr reversed_buffer) far_draws 0 = Some (Inr [6, 7, 8, 9, 10], 1)
   \<and> hd (train_idx (projr reversed_buffer)) = 6 \<and> (0::int) \<notin> set [6, 7, 8, 9, 10]"
proof -
  have t: "\<not> isl reversed_buffer \<and> train_idx (projr reversed_buffer) = [6, 7, 8, 9, 10, 11, 12, 13]
    \<and> \<not> is_unordered (projr reversed_buffer) \<and> batch_size (projr reversed_buffer) = 5
    \<and> sample_bias (projr reversed_buffer) = 1 / 10"
    by code_simp
  have s: "sample_geometric far_draws 0 6 13 (1 / 10) = Some (Inr 6, 1)"
    by (simp add: sample_geometric_def sample_loop.simps far_draws_def)
  have e: "batch_index (projr reversed_buffer) far_draws 0 = Some (Inr [6, 7, 8, 9, 10], 1)"
    by (simp add: batch_index_def t s upt_conv_Cons)
  have d: "\<forall>j. 1 \<le> far_draws (sample_bias (projr reversed_buffer)) j"
    by (simp add: far_draws_def)
  from batch_index_at_least_train_start [OF e d] e t show ?thesis by simp
qed

section \<open>Packing samples\<close>

lemma py_index_in_range: "0 \<le> i \<Longrightarrow> i < int n \<Longrightarrow> py_index n i = Some (nat i)"
  by (simp add: py_index_def)

lemma collect_map_Inr: "collect (map (\<lambda>x. Inr (g x)) xs) = Inr (map g xs)"
  by (induction xs) simp_all

lemma slice_bound_nat: "0 \<le> i \<Longrightarrow> slice_bound n i = min n (nat i)"
  by (simp add: slice_bound_def)

lemma window_3d:
  assumes "shape t = [f, c, n]"
  shows "window t idx w =
     Inr \<lparr>shape = [f, c, slice_bound n (idx + w + 1) - slice_bound n idx],
          el = (\<lambda>ix. el t [ix ! 0, ix ! 1, slice_bound n idx + ix ! 2])\<rparr>"
  by (simp add: window_def assms Let_def)

lemma index_rows_result:
  assumes "index_rows t index = Inr r" and "shape t = [n, c]"
  shows "shape r = [length index, c]"
    and "list_all (\<lambda>i. py_index n i \<noteq> None) index"
    and "el r ix = el t (the (py_index n (index ! hd ix)) # tl ix)"
  using assms by (auto simp: index_rows_def split: if_splits)

lemma pack_samples_parts:
  assumes "pack_samples b index = Inr r"
  shows "index_rows (pvm b) (map (\<lambda>i. i - 1) index) = Inr (last_w r)"
    and "setw_index r = index"
  using assms by (auto simp: pack_samples_def split: sum.splits)

lemma find_unique:
  assumes "\<forall>k \<in> set ks. P k \<longleftrightarrow> k = i" and "i \<in> set ks"
  shows "find P ks = Some i"
  using assms by (induction ks) auto

lemma find_none: "\<forall>k \<in> set ks. \<not> P k \<Longrightarrow> find P ks = None"
  by (induction ks) auto

lemma broadcast_shapes_same: "broadcast_shapes [m, c] [m, c] = Some [m, c]"
  by (simp add: broadcast_shapes_def)

lemma broadcast_index_same:
  "i < m \<Longrightarrow> j < c \<Longrightarrow> broadcast_index [m, c] [i, j] = [i, j]"
  by (auto simp: broadcast_index_def)

lemma setw_value_shape:
  assumes "i < m" and "j < c"
  shows "broadcast_shapes [m, c] (dropWhile (\<lambda>d. d = 1) [m, c]) = Some [m, c]
         \<and> replicate (length [m, c] - length (dropWhile (\<lambda>d. d = 1) [m, c])) 0
             @ broadcast_index (dropWhile (\<lambda>d. d = 1) [m, c]) [i, j] = [i, j]"
  using assms by (auto simp: broadcast_shapes_def broadcast_index_def)

lemma setw_value_shape_ok:
  "broadcast_shapes [m, c] (dropWhile (\<lambda>d. d = 1) [m, c]) = Some [m, c]"
  by (auto simp: broadcast_shapes_def)

lemma setw_rows:
  assumes shp: "shape (pvm b) = [n, c]"
    and dist: "distinct index"
    and rng: "\<forall>i \<in> set index. 0 \<le> i \<and> i < int n"
    and w: "shape w = [length index, c]"
  shows "\<exists>b'. setw b index w = Inr b'
           \<and> shape (pvm b') = [n, c]
           \<and> (\<forall>i<length index. row (pvm b') (nat (index ! i)) = row w i)
           \<and> (\<forall>j<n. int j \<notin> set index \<longrightarrow> row (pvm b') j = row (pvm b) j)"
proof -
  let ?vs = "dropWhile (\<lambda>d. d = 1) (shape w)"
  let ?f = "\<lambda>ix. case find (\<lambda>k. py_index n (index ! k) = Some (hd ix)) (rev [0..<length index]) of
                None \<Rightarrow> el (pvm b) ix
              | Some k \<Rightarrow> el w (replicate (length (shape w) - length ?vs) 0
                                   @ broadcast_index ?vs (k # tl ix))"
  let ?b = "b\<lparr>pvm := (pvm b)\<lparr>el := ?f\<rparr>\<rparr>"
  have ok: "list_all (\<lambda>i. py_index n i \<noteq> None) index"
    unfolding list_all_iff using rng by (auto simp: py_index_in_range)
  have bc: "broadcast_shapes [length index, c] ?vs = Some [length index, c]"
    unfolding w by (rule setw_value_shape_ok)
  have res: "setw b index w = Inr ?b"
    using ok bc by (simp add: setw_def shp Let_def del: One_nat_def)
  have shape': "shape (pvm ?b) = [n, c]" by (simp add: shp)
  have pos: "py_index n (index ! k) = Some (nat (index ! k))" if "k < length index" for k
    using rng that by (simp add: py_index_in_range)
  have written: "row (pvm ?b) (nat (index ! i)) = row w i" if i: "i < length index" for i
  proof -
    have "(py_index n (index ! k) = Some (nat (index ! i))) \<longleftrightarrow> k = i"
      if "k \<in> set (rev [0..<length index])" for k
    proof -
      from that have k: "k < length index" by simp
      from rng k i have "0 \<le> index ! k" "0 \<le> index ! i" by simp_all
      then have "nat (index ! k) = nat (index ! i) \<longleftrightarrow> index ! k = index ! i" by auto
      also have "\<dots> \<longleftrightarrow> k = i" using dist k i by (simp add: nth_eq_iff_index_eq)
      finally show ?thesis by (simp add: pos [OF k])
    qed
    then have found: "find (\<lambda>k. py_index n (index ! k) = Some (nat (index ! i)))
        (rev [0..<length index]) = Some i"
      using i by (intro find_unique) simp_all
    have "el (pvm ?b) [nat (index ! i), j] = el w [i, j]" if j: "j < c" for j
    proof -
      from setw_value_shape [OF i j]
      have "replicate (length (shape w) - length ?vs) 0 @ broadcast_index ?vs [i, j] = [i, j]"
        unfolding w by simp
      with found show ?thesis by simp
    qed
    then show ?thesis by (simp add: row_def shp w)
  qed
  have kept: "row (pvm ?b) j = row (pvm b) j" if "j < n" "int j \<notin> set index" for j
  proof -
    have "py_index n (index ! k) \<noteq> Some j" if "k \<in> set (rev [0..<length index])" for k
    proof -
      from that have k: "k < length index" by simp
      with \<open>int j \<notin> set index\<close> have "index ! k \<noteq> int j" by (metis nth_mem)
      moreover from rng k have "0 \<le> index ! k" by simp
      ultimately have "nat (index ! k) \<noteq> j" by linarith
      then show ?thesis by (simp add: pos [OF k])
    qed
    then have "find (\<lambda>k. py_index n (index ! k) = Some j) (rev [0..<length index]) = None"
      by (intro find_none) simp
    then show ?thesis by (simp add: row_def shp)
  qed
  from res shape' written kept show ?thesis by blast
qed

text \<open>
  Claim C4. Whenever \<open>_pack_samples\<close> returns, row \<open>i\<close> of the prior weights is the row of
  the memory that \<open>index[i] - 1\<close> selects in the buffer that was packed (row
  \<open>index[i] - 1\<close> itself for \<open>index[i] \<ge> 1\<close>); and for distinct indices inside the memory
  and new weights of the shape of the rows, the write-back succeeds, leaves row \<open>index[i]\<close>
  equal to row \<open>i\<close> of the new weights, and changes no other row.
\<close>

theorem pack_samples_prior_weights_and_writeback:
  assumes pack: "pack_samples b index = Inr r"
    and shp: "shape (pvm b) = [n, c]"
  shows "shape (last_w r) = [length index, c]
     \<and> (\<forall>i<length index.
           row (last_w r) i = row (pvm b) (the (py_index n (index ! i - 1)))
           \<and> (1 \<le> index ! i \<longrightarrow> row (last_w r) i = row (pvm b) (nat (index ! i - 1))))
     \<and> (distinct index \<and> (\<forall>i \<in> set index. 0 \<le> i \<and> i < int n) \<and> shape w = [length index, c]
          \<longrightarrow> (\<exists>b'. setw b (setw_index r) w = Inr b'
                 \<and> shape (pvm b') = [n, c]
                 \<and> (\<forall>i<length index. row (pvm b') (nat (index ! i)) = row w i)
                 \<and> (\<forall>j<n. int j \<notin> set index \<longrightarrow> row (pvm b') j = row (pvm b) j)))"
proof (intro conjI allI impI)
  note parts = pack_samples_parts [OF pack]
  note rows = index_rows_result [OF parts(1) shp]
  from rows(1) show s: "shape (last_w r) = [length index, c]" by simp
  {
    fix i assume i: "i < length index"
    show eq: "row (last_w r) i = row (pvm b) (the (py_index n (index ! i - 1)))"
      using i by (simp add: row_def s shp rows(3))
    assume "1 \<le> index ! i"
    moreover from rows(2) i have "py_index n (index ! i - 1) \<noteq> None"
      by (simp add: list_all_length)
    ultimately have "py_index n (index ! i - 1) = Some (nat (index ! i - 1))"
      by (auto simp: py_index_def split: if_splits)
    with eq show "row (last_w r) i = row (pvm b) (nat (index ! i - 1))" by simp
  }
  assume "distinct index \<and> (\<forall>i \<in> set index. 0 \<le> i \<and> i < int n) \<and> shape w = [length index, c]"
  then show "\<exists>b'. setw b (setw_index r) w = Inr b'
                 \<and> shape (pvm b') = [n, c]
                 \<and> (\<forall>i<length index. row (pvm b') (nat (index ! i)) = row w i)
                 \<and> (\<forall>j<n. int j \<notin> set index \<longrightarrow> row (pvm b') j = row (pvm b) j)"
    unfolding parts(2) using setw_rows [OF shp, of index w] by blast
qed

theorem pack_samples_prior_weights_and_writeback_witness:
  "\<not> isl (pack_samples (projr written_buffer2) [2, 3])
   \<and> row (last_w (projr (pack_samples (projr written_buffer2) [2, 3]))) 0 = [1 / 4, 3 / 4]
   \<and> row (last_w (projr (pack_samples (projr written_buffer2) [2, 3]))) 1 = [2 / 3, 1 / 3]
   \<and> (\<exists>b'. setw (projr written_buffer2)
               (setw_index (projr (pack_samples (projr written_buffer2) [2, 3]))) new_weights2
             = Inr b'
           \<and> row (pvm b') 2 = [1 / 2, 1 / 2] \<and> row (pvm b') 3 = [1 / 5, 4 / 5]
           \<and> row (pvm b') 1 = [1 / 4, 3 / 4])"
proof -
  let ?b = "projr written_buffer2"
  let ?r = "projr (pack_samples ?b [2, 3])"
  have ok: "\<not> isl (pack_samples ?b [2, 3])" by code_simp
  then have pack: "pack_samples ?b [2, 3] = Inr ?r" by simp
  have shp: "shape (pvm ?b) = [6, 2]" by code_simp
  have w: "shape new_weights2 = [length [2, 3 :: int], 2]" by code_simp
  have stored: "row (pvm ?b) 1 = [1 / 4, 3 / 4]" "row (pvm ?b) 2 = [2 / 3, 1 / 3]" by code_simp+
  have given: "row new_weights2 0 = [1 / 2, 1 / 2]" "row new_weights2 1 = [1 / 5, 4 / 5]"
    by code_simp+
  from pack_samples_prior_weights_and_writeback [OF pack shp, of new_weights2] w
  have prior: "\<forall>i<length [2, 3 :: int].
           row (last_w ?r) i = row (pvm ?b) (the (py_index 6 ([2, 3] ! i - 1)))"
    and later: "\<exists>b'. setw ?b (setw_index ?r) new_weights2 = Inr b'
                 \<and> shape (pvm b') = [6, 2]
                 \<and> (\<forall>i<length [2, 3 :: int]. row (pvm b') (nat ([2, 3] ! i)) = row new_weights2 i)
                 \<and> (\<forall>j<6. int j \<notin> set [2, 3] \<longrightarrow> row (pvm b') j = row (pvm ?b) j)"
    by simp_all
  from prior have p0: "row (last_w ?r) 0 = row (pvm ?b) 1" and p1: "row (last_w ?r) 1 = row (pvm ?b) 2"
    by (simp_all add: py_index_def)
  from later obtain b' where b': "setw ?b (setw_index ?r) new_weights2 = Inr b'"
    and wr: "\<forall>i<length [2, 3 :: int]. row (pvm b') (nat ([2, 3] ! i)) = row new_weights2 i"
    and kp: "\<forall>j<6. int j \<notin> set [2, 3] \<longrightarrow> row (pvm b') j = row (pvm ?b) j"
    by blast
  from wr have "row (pvm b') 2 = row new_weights2 0" "row (pvm b') 3 = row new_weights2 1"
    by (simp_all add: numeral_2_eq_2 numeral_3_eq_3 less_Suc_eq)
  moreover from kp have "row (pvm b') 1 = row (pvm ?b) 1" by simp
  ultimately show ?thesis using ok p0 p1 b' stored given by simp
qed

text \<open>
  For a single sample with a complete window the target is as intended: the price at the
  held-out step of the window over the price of channel 0 one step before.
\<close>

lemma select_value:
  assumes "d < length (shape t)" and "py_index (shape t ! d) i = Some k"
  shows "select t d i = Inr \<lparr>shape = take d (shape t) @ drop (Suc d) (shape t),
                              el = (\<lambda>ix. el t (take d ix @ k # drop d ix))\<rparr>"
  using assms by (simp add: select_def)

lemma price_relative_single:
  assumes shp: "shape batch = [1, f, c, m]" and f: "0 < f" and m: "2 \<le> m"
    and c: "c \<noteq> 1" and ch: "ch < f" and a: "a < c"
  shows "\<exists>target. price_relative batch = Inr target \<and> shape target = [1, f, c]
           \<and> el target [0, ch, a] = el batch [0, ch, a, m - 1] / el batch [0, 0, a, m - 2]"
proof -
  define numerator where
    "numerator = \<lparr>shape = [1, f, c], el = (\<lambda>ix. el batch (take 3 ix @ (m - 1) # drop 3 ix))\<rparr>"
  define channel0 where
    "channel0 = \<lparr>shape = [1, c, m], el = (\<lambda>ix. el batch (take 1 ix @ 0 # drop 1 ix))\<rparr>"
  define denominator where
    "denominator = \<lparr>shape = [1, c], el = (\<lambda>ix. el channel0 (take 2 ix @ (m - 2) # drop 2 ix))\<rparr>"
  define quotient where
    "quotient = \<lparr>shape = [1, f, c],
       el = (\<lambda>ix. el numerator (broadcast_index [1, f, c] ix)
                  / el denominator (broadcast_index [1, c] ix))\<rparr>"
  have p1: "py_index m (- 1) = Some (m - 1)" using m by (auto simp: py_index_def)
  have p2: "py_index m (- 2) = Some (m - 2)" using m by (auto simp: py_index_def)
  have p0: "py_index f 0 = Some 0" using f by (simp add: py_index_def)
  have s1: "select batch 3 (- 1) = Inr numerator"
    using select_value [of 3 batch "- 1" "m - 1"] p1 by (simp add: shp numerator_def)
  have s2: "select batch 1 0 = Inr channel0"
    using select_value [of 1 batch 0 0] p0 by (simp add: shp channel0_def)
  have s3: "select channel0 2 (- 2) = Inr denominator"
    using select_value [of 2 channel0 "- 2" "m - 2"] p2
    by (simp add: channel0_def denominator_def)
  have bs: "broadcast_shapes [1, f, c] [1, c] = Some [1, f, c]"
    by (simp add: broadcast_shapes_def)
  have s4: "tensor_div numerator denominator = Inr quotient"
    using bs by (simp add: tensor_div_def numerator_def denominator_def quotient_def)
  have res: "price_relative batch = Inr (squeeze_last quotient)"
    by (simp only: price_relative_def s1 s2 s3 s4 sum.case)
  have sq: "squeeze_last quotient = quotient" using c by (simp add: squeeze_last_def quotient_def)
  have i1: "broadcast_index [1, f, c] [0, ch, a] = [0, ch, a]"
    using c ch a by (auto simp: broadcast_index_def)
  have i2: "broadcast_index [1, c] [0, ch, a] = [0, a]"
    using c by (simp add: broadcast_index_def)
  have "el quotient [0, ch, a] = el batch [0, ch, a, m - 1] / el batch [0, 0, a, m - 2]"
    using i1 i2 by (simp add: quotient_def numerator_def denominator_def channel0_def)
  moreover have "shape quotient = [1, f, c]" by (simp add: quotient_def)
  ultimately show ?thesis using res sq by simp
qed

lemma pack_samples_single_target:
  assumes pack: "pack_samples b [idx] = Inr r"
    and shp: "shape (coin_features b) = [f, c, n]"
    and idx: "0 \<le> idx" and w: "1 \<le> window_size b"
    and full: "idx + window_size b + 1 \<le> int n"
    and c: "c \<noteq> 1" and ch: "ch < f" and a: "a < c"
  shows "shape (sample_y r) = [1, f, c]
     \<and> el (sample_y r) [0, ch, a]
         = el (coin_features b) [ch, a, nat (idx + window_size b)]
           / el (coin_features b) [0, a, nat (idx + window_size b - 1)]"
proof -
  define m where "m = slice_bound n (idx + window_size b + 1) - slice_bound n idx"
  define win where "win = \<lparr>shape = [f, c, m],
     el = (\<lambda>ix. el (coin_features b) [ix ! 0, ix ! 1, slice_bound n idx + ix ! 2])\<rparr>"
  define batch where "batch = \<lparr>shape = [1, f, c, m], el = (\<lambda>ix. el ([win] ! hd ix) (tl ix))\<rparr>"
  have sb: "slice_bound n idx = nat idx"
    "slice_bound n (idx + window_size b + 1) = nat (idx + window_size b + 1)"
    using idx w full by (simp_all add: slice_bound_nat)
  have m: "m = nat (window_size b + 1)" unfolding m_def sb using idx w by simp
  then have m2: "2 \<le> m" using w by simp
  have win: "window (coin_features b) idx (window_size b) = Inr win"
    unfolding win_def m_def by (rule window_3d [OF shp])
  have stk: "stack [win] = Inr batch" by (simp add: stack_def batch_def win_def)
  from pack obtain stacked target where "stack [win] = Inr stacked"
    and rel0: "price_relative stacked = Inr target" and y: "sample_y r = target"
    by (auto simp: pack_samples_def win split: sum.splits)
  with stk have rel: "price_relative batch = Inr target" by simp
  have bshape: "shape batch = [1, f, c, m]" by (simp add: batch_def)
  from ch have f0: "0 < f" by simp
  from price_relative_single [OF bshape f0 m2 c ch a] rel
  have t: "shape target = [1, f, c]"
    "el target [0, ch, a] = el batch [0, ch, a, m - 1] / el batch [0, 0, a, m - 2]"
    by simp_all
  have pos: "slice_bound n idx + (m - 1) = nat (idx + window_size b)"
    "slice_bound n idx + (m - 2) = nat (idx + window_size b - 1)"
    unfolding m sb(1) using idx w by simp_all
  have "el batch [0, ch, a, m - 1] = el (coin_features b) [ch, a, nat (idx + window_size b)]"
    "el batch [0, 0, a, m - 2] = el (coin_features b) [0, a, nat (idx + window_size b - 1)]"
    using pos by (simp_all add: batch_def win_def)
  with t y show ?thesis by simp
qed

text \<open>
  Claim C1 fails on the code for batches of more than one sample. The denominator
  \<open>batch[:, 0, :, -2]\<close> has lost its channel dimension, so broadcasting matches its batch
  dimension with the channel dimension of the numerator. With two channels and the batch
  \<open>[1, 2]\<close>, the target of sample 0 is right (110 / 100), but the target of sample 1 for
  channel 0 and asset 0 is 220 / 100, its last price over the reference price of sample 0,
  where the claim gives 220 / 110 = 2 (which packing sample 1 alone does return). With
  three channels the same batch raises RuntimeError.
\<close>

theorem pack_samples_target_of_two_samples:
  "\<not> isl buffer2 \<and> \<not> isl (pack_samples (projr buffer2) [1, 2])
   \<and> shape (sample_y (projr (pack_samples (projr buffer2) [1, 2]))) = [2, 2, 2]
   \<and> el (sample_y (projr (pack_samples (projr buffer2) [1, 2]))) [0, 0, 0] = 11 / 10
   \<and> el (sample_y (projr (pack_samples (projr buffer2) [1, 2]))) [1, 0, 0] = 11 / 5
   \<and> el prices2 [0, 0, 3] / el prices2 [0, 0, 2] = 2
   \<and> el (sample_y (projr (pack_samples (projr buffer2) [2]))) [0, 0, 0] = 2
   \<and> \<not> isl buffer3 \<and> isl (pack_samples (projr buffer3) [1, 2])
   \<and> projl (pack_samples (projr buffer3) [1, 2]) = RuntimeError"
  by code_simp

section \<open>Batches in order\<close>

text \<open>
  Claim C10, as stated, fails: with the training range \<open>[0, ..., 7]\<close>, batch size 5 and the
  start 6, the batch \<open>[6, ..., 10]\<close> runs past the training range into the test range
  \<open>[10, 11]\<close> and is returned.
\<close>

theorem next_batch_past_training_range:
  "\<not> isl forward_buffer
   \<and> train_idx (projr forward_buffer) = [0, 1, 2, 3, 4, 5, 6, 7]
   \<and> test_idx (projr forward_buffer) = [10, 11]
   \<and> map_option (map_prod (map_sum id setw_index) id)
        (next_batch (projr forward_buffer) near_draws 0) = Some (Inr [6, 7, 8, 9, 10], 1)"
proof -
  let ?b = "projr forward_buffer"
  have t: "\<not> isl forward_buffer" "train_idx ?b = [0, 1, 2, 3, 4, 5, 6, 7]"
    "test_idx ?b = [10, 11]" "\<not> is_unordered ?b" "batch_size ?b = 5" "sample_bias ?b = 1 / 10"
    by code_simp+
  have s: "sample_geometric near_draws 0 0 7 (1 / 10) = Some (Inr 6, 1)"
    by (simp add: sample_geometric_def sample_loop.simps near_draws_def)
  have bi: "batch_index ?b near_draws 0 = Some (Inr [6, 7, 8, 9, 10], 1)"
    by (simp add: batch_index_def t s upt_conv_Cons)
  have "\<not> isl (pack_samples ?b [6, 7, 8, 9, 10])" by code_simp
  then have pk: "pack_samples ?b [6, 7, 8, 9, 10] = Inr (projr (pack_samples ?b [6, 7, 8, 9, 10]))"
    by simp
  have ix: "setw_index (projr (pack_samples ?b [6, 7, 8, 9, 10])) = [6, 7, 8, 9, 10]"
    by code_simp
  have "map_option (map_prod (map_sum id setw_index) id) (next_batch ?b near_draws 0)
      = Some (map_sum id setw_index (pack_samples ?b [6, 7, 8, 9, 10]), 1)"
    by (simp add: next_batch_def bi)
  also have "\<dots> = Some (Inr [6, 7, 8, 9, 10], 1)"
    by (subst pk) (simp add: ix)
  finally show ?thesis using t by simp
qed

lemma window_lengths_differ:
  assumes "0 \<le> s" and "0 \<le> w" and "2 \<le> m" and "int n < s + int m + w"
    and "1 \<le> slice_bound n (s + w + 1) - slice_bound n s"
  shows "slice_bound n (s + int (m - 1) + w + 1) - slice_bound n (s + int (m - 1))
         \<noteq> slice_bound n (s + w + 1) - slice_bound n s"
proof -
  have a: "slice_bound n s = min n (nat s)" using assms by (simp add: slice_bound_nat)
  have b: "slice_bound n (s + w + 1) = min n (nat (s + w + 1))"
    using assms by (simp add: slice_bound_nat)
  have c: "slice_bound n (s + int (m - 1)) = min n (nat (s + int (m - 1)))"
    using assms by (simp add: slice_bound_nat)
  have d: "slice_bound n (s + int (m - 1) + w + 1) = n"
    using assms by (simp add: slice_bound_nat)
  from assms show ?thesis unfolding a b c d by (auto simp: min_def split: if_splits)
qed

lemma pack_samples_incomplete_window:
  assumes shp: "shape (coin_features b) = [f, c, n]"
    and s: "0 \<le> s" and w: "0 \<le> window_size b" and m: "2 \<le> m"
    and over: "int n < s + int m + window_size b"
  shows "isl (pack_samples b (map (\<lambda>k. s + int k) [0..<m]))"
proof (rule ccontr)
  let ?index = "map (\<lambda>k. s + int k) [0..<m]"
  let ?len = "\<lambda>idx. slice_bound n (idx + window_size b + 1) - slice_bound n idx"
  let ?g = "\<lambda>idx. \<lparr>shape = [f, c, ?len idx],
                   el = (\<lambda>ix. el (coin_features b) [ix ! 0, ix ! 1, slice_bound n idx + ix ! 2])\<rparr>"
  assume "\<not> isl (pack_samples b ?index)"
  then obtain r where "pack_samples b ?index = Inr r"
    by (cases "pack_samples b ?index") auto
  then obtain windows batch target where
    col: "collect (map (\<lambda>idx. window (coin_features b) idx (window_size b)) ?index) = Inr windows"
    and stk: "stack windows = Inr batch"
    and rel: "price_relative batch = Inr target"
    by (auto simp: pack_samples_def split: sum.splits)
  have "(\<lambda>idx. window (coin_features b) idx (window_size b)) = (\<lambda>idx. Inr (?g idx))"
    by (rule ext) (simp add: window_3d [OF shp])
  with col have windows: "windows = map ?g ?index" by (simp only: collect_map_Inr) simp
  from m have idx: "?index = s # map (\<lambda>k. s + int k) [1..<m]"
    by (simp add: upt_conv_Cons)
  from m have mem: "s + int (m - 1) \<in> set (map (\<lambda>k. s + int k) [1..<m])"
    by (auto intro!: image_eqI [where x = "m - 1"])
  from stk have all: "list_all (\<lambda>t. shape t = shape (?g s)) (map ?g (map (\<lambda>k. s + int k) [1..<m]))"
    and sb: "shape batch = length windows # shape (?g s)"
    unfolding windows idx by (auto simp: stack_def split: if_splits)
  from all mem have same: "?len (s + int (m - 1)) = ?len s"
    by (auto simp: list_all_iff)
  from rel obtain num where "select batch 3 (- 1) = Inr num"
    by (auto simp: price_relative_def split: sum.splits)
  then have "py_index (?len s) (- 1) \<noteq> None"
    by (auto simp: select_def sb split: if_splits option.splits)
  then have "1 \<le> ?len s" by (auto simp: py_index_def split: if_splits)
  from window_lengths_differ [OF s w m over this] same show False by (simp add: add.assoc)
qed

text \<open>
  Claim C10, amended. In ordered mode \<open>next_batch\<close> compares nothing with the training
  range: its outcome is the outcome of packing \<open>[s, s + batch_size)\<close>. For a batch of at
  least two samples, a start and a window size that are not negative, it fails whenever
  \<open>s + batch_size + window_size\<close> exceeds the number of timesteps, that is, whenever an
  index of the batch has no complete window.
\<close>

theorem next_batch_ordered_fails_on_incomplete_window:
  assumes "\<not> is_unordered b" and "train_idx b \<noteq> []"
    and "sample_geometric geometric p (hd (train_idx b)) (last (train_idx b)) (sample_bias b)
           = Some (Inr s, q)"
    and "shape (coin_features b) = [f, c, n]"
    and "0 \<le> s" and "0 \<le> window_size b" and "2 \<le> batch_size b"
    and "int n < s + batch_size b + window_size b"
  shows "next_batch b geometric p
           = Some (pack_samples b (map (\<lambda>k. s + int k) [0..<nat (batch_size b)]), q)
         \<and> isl (pack_samples b (map (\<lambda>k. s + int k) [0..<nat (batch_size b)]))"
proof -
  from assms(7) have m: "2 \<le> nat (batch_size b)" "int (nat (batch_size b)) = batch_size b"
    by simp_all
  from assms(1,2,3) have "batch_index b geometric p
      = Some (Inr (map (\<lambda>k. s + int k) [0..<nat (batch_size b)]), q)"
    by (simp add: batch_index_def Let_def)
  moreover from m have "map (\<lambda>k. s + int k) [0..<nat (batch_size b)] \<noteq> []" by auto
  ultimately have "next_batch b geometric p
      = Some (pack_samples b (map (\<lambda>k. s + int k) [0..<nat (batch_size b)]), q)"
    by (simp add: next_batch_def)
  moreover from assms(8) m have "int n < s + int (nat (batch_size b)) + window_size b" by simp
  from pack_samples_incomplete_window [OF assms(4,5,6) m(1) this]
  have "isl (pack_samples b (map (\<lambda>k. s + int k) [0..<nat (batch_size b)]))" .
  ultimately show ?thesis by simp
qed

theorem next_batch_ordered_fails_on_incomplete_window_witness:
  "next_batch (projr long_batch_buffer) near_draws 0
     = Some (pack_samples (projr long_batch_buffer) [6, 7, 8, 9, 10, 11, 12, 13, 14, 15], 1)
   \<and> isl (pack_samples (projr long_batch_buffer) [6, 7, 8, 9, 10, 11, 12, 13, 14, 15])"
proof -
  let ?b = "projr long_batch_buffer"
  have t: "\<not> is_unordered ?b" "train_idx ?b \<noteq> []" "hd (train_idx ?b) = 0" "last (train_idx ?b) = 7"
    "sample_bias ?b = 1 / 10" "shape (coin_features ?b) = [1, 2, 16]" "window_size ?b = 1"
    "batch_size ?b = 10"
    by code_simp+
  have s: "sample_geometric near_draws 0 (hd (train_idx ?b)) (last (train_idx ?b)) (sample_bias ?b)
      = Some (Inr 6, 1)"
    by (simp add: t sample_geometric_def sample_loop.simps near_draws_def)
  have "map (\<lambda>k. 6 + int k) [0..<nat 10] = [6, 7, 8, 9, 10, 11, 12, 13, 14, 15]"
    by code_simp
  with next_batch_ordered_fails_on_incomplete_window [OF t(1,2) s t(6)]
  show ?thesis by (simp add: t)
qed

section \<open>Appending experience\<close>

lemma append_experience_refused:
  "\<not> portion_reversed b \<Longrightarrow> append_experience b new_features new_pvm = Inl (RuntimeError, b)"
  by (simp add: append_experience_def)

text \<open>
  Claim C5 fails on the code in its second half. On the reversed buffer with the training
  range \<open>[6, ..., 13]\<close>, appending two timesteps raises ValueError (an array of 8 plus a
  list of 2) and appending one timestep adds 13 to every training index and then raises
  RuntimeError in \<open>t.cat\<close>; the number of training indices stays 8 both times.
\<close>

theorem append_experience_keeps_train_count:
  "\<not> isl reversed_buffer \<and> portion_reversed (projr reversed_buffer)
   \<and> train_idx (projr reversed_buffer) = [6, 7, 8, 9, 10, 11, 12, 13]
   \<and> train_num (projr reversed_buffer) = 8
   \<and> isl (append_experience (projr reversed_buffer) (full [1, 2, 2] 1) (Some (full [2, 2] (1 / 2))))
   \<and> fst (projl (append_experience (projr reversed_buffer) (full [1, 2, 2] 1)
        (Some (full [2, 2] (1 / 2))))) = ValueError
   \<and> train_num (state_after (append_experience (projr reversed_buffer) (full [1, 2, 2] 1)
        (Some (full [2, 2] (1 / 2))))) = 8
   \<and> fst (projl (append_experience (projr reversed_buffer) (full [1, 2, 1] 1)
        (Some (full [1, 2] (1 / 2))))) = RuntimeError
   \<and> train_idx (state_after (append_experience (projr reversed_buffer) (full [1, 2, 1] 1)
        (Some (full [1, 2] (1 / 2))))) = [19, 20, 21, 22, 23, 24, 25, 26]"
  by code_simp

section \<open>Rows of the memory and timesteps of the features\<close>

lemma truncated_slice_short:
  assumes "0 \<le> w"
  shows "py_slice (py_slice (np_arange n) i j) 0 (- (w + 1)) = []
         \<or> length (py_slice (py_slice (np_arange n) i j) 0 (- (w + 1))) < nat n"
proof -
  have "length (py_slice (np_arange n) i j) \<le> nat n"
    using length_py_slice [of "np_arange n" i j] by (simp add: np_arange_def)
  then show ?thesis
    unfolding py_slice_remove_last [OF assms] remove_last_def using assms by auto
qed

lemma divide_data_train_short:
  assumes "divide_data period_num wsize test_portion val_portion reversed = Inr (train, test, val)"
    and "0 \<le> wsize"
  shows "train = [] \<or> length train < nat period_num"
proof (cases reversed)
  case True
  with assms(1) have "train = py_slice (py_slice (np_arange period_num)
      (astype_int ((val_portion + test_portion) * of_int period_num))
      (int (length (np_arange period_num)))) 0 (- (wsize + 1))"
    by (simp add: divide_data_def Let_def np_split_def)
  then show ?thesis using truncated_slice_short [OF assms(2)] by simp
next
  case False
  with assms(1) have "train = py_slice (py_slice (np_arange period_num) 0
      (astype_int ((1 - test_portion - val_portion) * of_int period_num))) 0 (- (wsize + 1))"
    by (simp add: divide_data_def Let_def np_split_def)
  then show ?thesis using truncated_slice_short [OF assms(2)] by simp
qed

lemma init_inv:
  assumes "init features bsize wsize test_portion validation_portion bias reversed unordered = Inr b"
    and "0 \<le> wsize"
  shows "buffer_inv b"
proof -
  from assms(1) have len: "length (shape features) = 3" and coins: "shape features ! 1 \<noteq> 0"
    by (auto simp: init_def Let_def split: if_splits)
  from len obtain f c n where shp: "shape features = [f, c, n]"
    by (cases "shape features" rule: list.exhaust)
      (auto simp: length_Suc_conv numeral_3_eq_3)
  from assms(1) shp coins obtain train test val where
    dd: "divide_data (int n) wsize test_portion validation_portion reversed = Inr (train, test, val)"
    and b: "coin_features b = features" "pvm b = full [n, c] (1 / of_nat c)" "train_idx b = train"
    by (auto simp: init_def Let_def split: if_splits sum.splits)
  from divide_data_train_short [OF dd assms(2)] have "train = [] \<or> length train < n" by simp
  with shp b show ?thesis by (auto simp: buffer_inv_def full_def)
qed

lemma setw_frame:
  assumes "setw b index w = Inr b'"
  shows "coin_features b' = coin_features b \<and> shape (pvm b') = shape (pvm b)
         \<and> train_idx b' = train_idx b"
  using assms by (auto simp: setw_def Let_def split: list.splits if_splits)

lemma setw_inv: "buffer_inv b \<Longrightarrow> setw b index w = Inr b' \<Longrightarrow> buffer_inv b'"
  using setw_frame [of b index w b'] by (simp add: buffer_inv_def)

lemma torch_cat_time_axis:
  assumes "torch_cat a new = Inr r" and "shape a = [f, c, n]" and "shape new \<noteq> []"
  shows "last (shape new) = 0 \<or> last (shape new) = n"
  using assms by (cases "shape new") (auto simp: torch_cat_def split: if_splits)

lemma append_experience_frame:
  assumes inv: "buffer_inv b"
  shows "isl (append_experience b new_features new_pvm)
         \<and> coin_features (state_after (append_experience b new_features new_pvm)) = coin_features b
         \<and> pvm (state_after (append_experience b new_features new_pvm)) = pvm b
         \<and> length (train_idx (state_after (append_experience b new_features new_pvm)))
             = length (train_idx b)"
proof -
  from inv obtain f c n where shp: "shape (coin_features b) = [f, c, n]"
    and short: "train_idx b = [] \<or> length (train_idx b) < n"
    by (auto simp: buffer_inv_def)
  let ?n = "last (shape new_features)"
  show ?thesis
  proof (cases "\<not> portion_reversed b \<or> shape new_features = [] \<or> train_idx b = []
                \<or> (?n \<noteq> length (train_idx b) \<and> ?n \<noteq> 1)")
    case True
    then show ?thesis
      by (auto simp: append_experience_def state_after_def Let_def)
  next
    case False
    then have rev: "portion_reversed b" and ne: "shape new_features \<noteq> []"
      and tr: "train_idx b \<noteq> []" and n: "?n = length (train_idx b) \<or> ?n = 1"
      by auto
    have nocat: "isl (torch_cat (coin_features b) new_features)"
    proof (rule ccontr)
      assume "\<not> isl (torch_cat (coin_features b) new_features)"
      then obtain r where "torch_cat (coin_features b) new_features = Inr r"
        by (cases "torch_cat (coin_features b) new_features") auto
      from torch_cat_time_axis [OF this shp ne] have "?n = 0 \<or> ?n = n" .
      with n tr short show False by (cases "train_idx b") auto
    qed
    then obtain e where e: "torch_cat (coin_features b) new_features = Inl e"
      by (cases "torch_cat (coin_features b) new_features") auto
    from rev ne tr n e show ?thesis
      by (auto simp: append_experience_def state_after_def Let_def)
  qed
qed

lemma append_experience_inv:
  "buffer_inv b \<Longrightarrow> buffer_inv (state_after (append_experience b new_features new_pvm))"
  using append_experience_frame [of b new_features new_pvm]
  by (auto simp: buffer_inv_def)

lemma append_experience_raises_after_init:
  assumes "init features bsize wsize test_portion validation_portion bias reversed unordered = Inr b"
    and "0 \<le> wsize"
  shows "isl (append_experience b new_features new_pvm)"
  using append_experience_frame [OF init_inv [OF assms]] by blast

text \<open>
  Claim C6 fails on the code. \<open>t.cat\<close> is called without \<open>dim\<close>, so it joins the features
  along the channel dimension, while the memory grows in time. Where a call of
  \<open>append_experience\<close> returns, as on the buffer with window size \<open>-4\<close> and new data of three
  timesteps, the features go from shape (1, 2, 3) to (2, 2, 3) and the memory from 3 rows to
  6. With a window size that is not negative the call cannot return at all (lemmas
  \<open>append_experience_frame\<close> and \<open>append_experience_raises_after_init\<close>).
\<close>

theorem append_experience_breaks_row_count:
  "\<not> isl whole_range_buffer
   \<and> train_idx (projr whole_range_buffer) = [0, 1, 2]
   \<and> shape (coin_features (projr whole_range_buffer)) = [1, 2, 3]
   \<and> shape (pvm (projr whole_range_buffer)) = [3, 2]
   \<and> \<not> isl (append_experience (projr whole_range_buffer) (full [1, 2, 3] 2)
           (Some (full [3, 2] (1 / 4))))
   \<and> shape (coin_features (state_after (append_experience (projr whole_range_buffer)
        (full [1, 2, 3] 2) (Some (full [3, 2] (1 / 4)))))) = [2, 2, 3]
   \<and> shape (pvm (state_after (append_experience (projr whole_range_buffer)
        (full [1, 2, 3] 2) (Some (full [3, 2] (1 / 4)))))) = [6, 2]
   \<and> train_idx (state_after (append_experience (projr whole_range_buffer)
        (full [1, 2, 3] 2) (Some (full [3, 2] (1 / 4))))) = [2, 4, 6]"
  by code_simp

end
